theory Spec2Isabelle
  imports Main
begin

section \<open>The profile endpoint (api/profile/index.js)\<close>

text \<open>
  The module exports one asynchronous request handler. It talks to a Postgres store through
  a connection pool: it bootstraps two tables, resolves a user from the request headers
  (possibly inserting a user row), reads that user's profile and answers with a JSON body.
  The store, the pool and the clock are outside the module, so they are an explicit
  \<open>world\<close> that every operation takes and returns; an \<open>await\<close>ed promise that rejects is
  the \<open>Inl\<close> of a sum.

  What the model takes from the environment: a header value is a string (Node joins
  repeated headers); one request runs at a time, so no other request touches the store
  between two round trips; any round trip to the pool or the store may fail, as the world
  says; the store refuses a text parameter that holds a NUL byte and a key whose index row
  is too large; \<open>JSON.stringify\<close> inside \<open>res.json\<close> throws only on a value it cannot
  serialize, which a string is not, and whether the rows that came from the store serialize
  is for the world to say; \<open>console.error\<close> does not throw.
\<close>

subsection \<open>Rows, errors and the world\<close>

text \<open>
  A row of table \<open>users\<close>. Column \<open>id\<close> is field \<open>uid\<close> (\<open>id\<close> is the identity
  function of HOL). Nullable columns are options; timestamps are integers.
\<close>

record user =
  uid :: string
  token :: "string option"
  email :: "string option"
  created_at :: "int option"

datatype json =
  JNull | JBool bool | JNumber int | JString string
  | JArray "json list" | JObject "(string \<times> json) list"

text \<open>A row of table \<open>profiles\<close>.\<close>

record profile =
  user_id :: string
  profile_type :: "string option"
  display_name :: "string option"
  bio :: "string option"
  metadata :: "json option"
  updated_at :: "int option"

text \<open>What a rejected promise carries: an \<open>Error\<close> object with its name and message.\<close>

datatype js_error = JsError (err_name: string) (err_message: string)

text \<open>The statements the module sends, with their bound parameter.\<close>

datatype statement =
  CreateUsersTable
  | CreateProfilesTable
  | SelectUserById string
  | SelectUserByToken string
  | InsertUser string
  | SelectProfileByUserId string

text \<open>What the module does to the outside, in order.\<close>

datatype event =
  PoolConnect
  | ClientQuery statement
  | ClientRelease
  | PoolQuery statement
  | ConsoleError js_error

text \<open>
  The world: the two tables (\<open>None\<close> while a table does not exist, rows in insertion
  order), the value of \<open>now()\<close>, the number of clients checked out of the pool, the size in
  bytes of the row that the index of the primary key of \<open>users\<close> gets for an id (the store
  computes it, after compressing a long value if that pays), the failures the environment
  has in store for the coming fallible steps (\<open>Some e\<close>: the step throws \<open>e\<close>; \<open>None\<close>
  or an exhausted list: it goes through), and the events so far.
\<close>

record world =
  users :: "user list option"
  profiles :: "profile list option"
  clock :: int
  checked_out :: nat
  index_row_size :: "string \<Rightarrow> nat"
  faults :: "js_error option list"
  trace :: "event list"

type_synonym 'a io = "world \<Rightarrow> (js_error + 'a) \<times> world"

subsection \<open>Sequencing\<close>

text \<open>\<open>const x = await m; k x\<close>: a rejection of \<open>m\<close> is thrown and skips \<open>k\<close>.\<close>

definition await :: "'a io \<Rightarrow> ('a \<Rightarrow> 'b io) \<Rightarrow> 'b io" where
  "await m k w = (case m w of (Inl e, w') \<Rightarrow> (Inl e, w') | (Inr x, w') \<Rightarrow> k x w')"

definition return_io :: "'a \<Rightarrow> 'a io" where
  "return_io x w = (Inr x, w)"

text \<open>
  \<open>try { body } finally { fin }\<close>: \<open>fin\<close> runs whatever \<open>body\<close> did; an exception of
  \<open>fin\<close> replaces the outcome of \<open>body\<close>.
\<close>

definition try_finally :: "'a io \<Rightarrow> unit io \<Rightarrow> 'a io" where
  "try_finally body fin w =
     (case body w of (r, w') \<Rightarrow>
        (case fin w' of (Inl e, w'') \<Rightarrow> (Inl e, w'') | (Inr _, w'') \<Rightarrow> (r, w'')))"

subsection \<open>The store\<close>

definition log_event :: "event \<Rightarrow> world \<Rightarrow> world" where
  "log_event ev w = w\<lparr>trace := trace w @ [ev]\<rparr>"

text \<open>
  A step that the environment may let fail: it throws the failure the environment has in
  store, or it takes effect.
\<close>

definition fallible :: "'a io \<Rightarrow> 'a io" where
  "fallible act w =
     (case faults w of
        [] \<Rightarrow> act w
      | None # fs \<Rightarrow> act (w\<lparr>faults := fs\<rparr>)
      | Some e # fs \<Rightarrow> (Inl e, w\<lparr>faults := fs\<rparr>))"

text \<open>One round trip to the pool or the store: it is logged, and it is such a step.\<close>

definition round_trip :: "event \<Rightarrow> 'a io \<Rightarrow> 'a io" where
  "round_trip ev act w = fallible act (log_event ev w)"

text \<open>Decimal digits of a number, for the messages of the store.\<close>

fun show_nat :: "nat \<Rightarrow> string" where
  "show_nat n =
     (if n < 10 then [''0123456789'' ! n]
      else show_nat (n div 10) @ [''0123456789'' ! (n mod 10)])"

declare show_nat.simps [simp del]

text \<open>
  The errors of the store that depend on the statement and not on the environment: a table
  that does not exist, a text parameter with a NUL byte, a key whose index row is larger
  than a third of a page.
\<close>

definition undefined_table :: "string \<Rightarrow> js_error" where
  "undefined_table t = JsError ''error'' (''relation \"'' @ t @ ''\" does not exist'')"

definition valid_text :: "string \<Rightarrow> bool" where
  "valid_text s = (CHR 0x00 \<notin> set s)"

definition invalid_byte_sequence :: js_error where
  "invalid_byte_sequence =
     JsError ''error'' ''invalid byte sequence for encoding \"UTF8\": 0x00''"

definition index_row_too_large :: "nat \<Rightarrow> js_error" where
  "index_row_too_large n =
     JsError ''error''
       (''index row size '' @ show_nat n @
        '' exceeds btree version 4 maximum 2704 for index \"users_pkey\"'')"

text \<open>\<open>CREATE TABLE IF NOT EXISTS users (...)\<close>: nothing happens to an existing table.\<close>

definition create_users_table :: "unit io" where
  "create_users_table w =
     (case users w of
        None \<Rightarrow> (Inr (), w\<lparr>users := Some []\<rparr>)
      | Some _ \<Rightarrow> (Inr (), w))"

text \<open>
  \<open>CREATE TABLE IF NOT EXISTS profiles (user_id ... REFERENCES users(id) ...)\<close>: a new
  table needs the table its foreign key refers to.
\<close>

definition create_profiles_table :: "unit io" where
  "create_profiles_table w =
     (case profiles w of
        Some _ \<Rightarrow> (Inr (), w)
      | None \<Rightarrow>
          (case users w of
             None \<Rightarrow> (Inl (undefined_table ''users''), w)
           | Some _ \<Rightarrow> (Inr (), w\<lparr>profiles := Some []\<rparr>)))"

text \<open>\<open>SELECT * FROM users WHERE id = $1 LIMIT 1\<close>\<close>

definition select_user_by_id :: "string \<Rightarrow> user list io" where
  "select_user_by_id userId w =
     (case users w of
        None \<Rightarrow> (Inl (undefined_table ''users''), w)
      | Some us \<Rightarrow>
          (if \<not> valid_text userId then (Inl invalid_byte_sequence, w)
           else (Inr (take 1 (filter (\<lambda>u. uid u = userId) us)), w)))"

text \<open>
  \<open>SELECT * FROM users WHERE token = $1 LIMIT 1\<close>: a row whose token is NULL matches
  no parameter.
\<close>

definition select_user_by_token :: "string \<Rightarrow> user list io" where
  "select_user_by_token tok w =
     (case users w of
        None \<Rightarrow> (Inl (undefined_table ''users''), w)
      | Some us \<Rightarrow>
          (if \<not> valid_text tok then (Inl invalid_byte_sequence, w)
           else (Inr (take 1 (filter (\<lambda>u. token u = Some tok) us)), w)))"

text \<open>\<open>SELECT * FROM profiles WHERE user_id = $1 LIMIT 1\<close>\<close>

definition select_profile_by_user_id :: "string \<Rightarrow> profile list io" where
  "select_profile_by_user_id userId w =
     (case profiles w of
        None \<Rightarrow> (Inl (undefined_table ''profiles''), w)
      | Some ps \<Rightarrow>
          (if \<not> valid_text userId then (Inl invalid_byte_sequence, w)
           else (Inr (take 1 (filter (\<lambda>p. user_id p = userId) ps)), w)))"

text \<open>
  \<open>INSERT INTO users(id, created_at) VALUES($1, now()) ON CONFLICT DO NOTHING\<close>: the
  other columns are NULL; a row with the same primary key makes the insert do nothing;
  a new key goes into the index of the primary key, whose rows hold at most 2704 bytes.
\<close>

definition new_user :: "string \<Rightarrow> int \<Rightarrow> user" where
  "new_user userId t = \<lparr>uid = userId, token = None, email = None, created_at = Some t\<rparr>"

definition insert_user :: "string \<Rightarrow> user list io" where
  "insert_user userId w =
     (case users w of
        None \<Rightarrow> (Inl (undefined_table ''users''), w)
      | Some us \<Rightarrow>
          (if \<not> valid_text userId then (Inl invalid_byte_sequence, w)
           else if userId \<in> set (map uid us) then (Inr [], w)
           else if 2704 < index_row_size w userId
             then (Inl (index_row_too_large (index_row_size w userId)), w)
           else (Inr [], w\<lparr>users := Some (us @ [new_user userId (clock w)])\<rparr>)))"

subsection \<open>The pool\<close>

text \<open>\<open>pool.connect()\<close>: a round trip that checks a client out of the pool.\<close>

definition pool_connect :: "unit io" where
  "pool_connect =
     round_trip PoolConnect (\<lambda>w. (Inr (), w\<lparr>checked_out := Suc (checked_out w)\<rparr>))"

text \<open>\<open>client.query(sql)\<close> and \<open>pool.query(sql, params)\<close>\<close>

definition client_query :: "statement \<Rightarrow> 'a io \<Rightarrow> 'a io" where
  "client_query st act = round_trip (ClientQuery st) act"

definition pool_query :: "statement \<Rightarrow> 'a io \<Rightarrow> 'a io" where
  "pool_query st act = round_trip (PoolQuery st) act"

text \<open>
  \<open>client.release()\<close> is synchronous and talks to the pool only: it hands the client
  back. (It throws when the same client is released twice, which needs two calls.)
\<close>

definition client_release :: "unit io" where
  "client_release w = (Inr (), (log_event ClientRelease w)\<lparr>checked_out := checked_out w - 1\<rparr>)"

subsection \<open>ensureSchema\<close>

definition ensureSchema :: "unit io" where
  "ensureSchema =
     await pool_connect (\<lambda>client.
       try_finally
         (await (client_query CreateUsersTable create_users_table) (\<lambda>_.
            client_query CreateProfilesTable create_profiles_table))
         client_release)"

subsection \<open>The three lookups\<close>

text \<open>\<open>rows[0] || null\<close>: a row is an object, so it is truthy.\<close>

definition first_or_null :: "'a list \<Rightarrow> 'a option" where
  "first_or_null rows = (case rows of [] \<Rightarrow> None | r # _ \<Rightarrow> Some r)"

definition getUserById :: "string \<Rightarrow> user option io" where
  "getUserById userId =
     await (pool_query (SelectUserById userId) (select_user_by_id userId))
       (\<lambda>rows. return_io (first_or_null rows))"

definition getUserByToken :: "string \<Rightarrow> user option io" where
  "getUserByToken tok =
     await (pool_query (SelectUserByToken tok) (select_user_by_token tok))
       (\<lambda>rows. return_io (first_or_null rows))"

definition getProfileForUser :: "string \<Rightarrow> profile option io" where
  "getProfileForUser userId =
     await (pool_query (SelectProfileByUserId userId) (select_profile_by_user_id userId))
       (\<lambda>rows. return_io (first_or_null rows))"

subsection \<open>The handler\<close>

text \<open>
  \<open>req.headers\<close> maps a lower-case header name to its value. The response is the status
  and the object given to \<open>res.json\<close>: \<open>{error}\<close>, \<open>{error, details}\<close> or
  \<open>{user, profile, profile_type}\<close>.
\<close>

record request =
  headers :: "string \<rightharpoonup> string"

datatype body =
  ErrorBody string
  | ServerErrorBody string string
  | ProfileBody user "profile option" "string option"

record response =
  status :: nat
  body :: body

text \<open>\<open>h || null\<close> on a header: undefined and the empty string are falsy.\<close>

definition or_null :: "string option \<Rightarrow> string option" where
  "or_null h = (case h of None \<Rightarrow> None | Some s \<Rightarrow> (if s = [] then None else Some s))"

text \<open>\<open>h || ""\<close>\<close>

definition or_empty :: "string option \<Rightarrow> string" where
  "or_empty h = (case h of None \<Rightarrow> [] | Some s \<Rightarrow> s)"

definition startsWith :: "string \<Rightarrow> string \<Rightarrow> bool" where
  "startsWith s p = (take (length p) s = p)"

text \<open>\<open>authHeader.startsWith("Bearer ") ? authHeader.slice(7) : null\<close>\<close>

definition bearer_of :: "string \<Rightarrow> string option" where
  "bearer_of authHeader =
     (if startsWith authHeader ''Bearer '' then Some (drop 7 authHeader) else None)"

definition missing_auth :: response where
  "missing_auth =
     \<lparr>status = 401,
      body = ErrorBody ''Missing auth. Provide x-user-id (dev) or Authorization: Bearer <token>.''\<rparr>"

definition invalid_auth :: response where
  "invalid_auth = \<lparr>status = 401, body = ErrorBody ''Invalid auth / user not found.''\<rparr>"

text \<open>\<open>profile?.profile_type ?? null\<close>\<close>

definition profile_type_of :: "profile option \<Rightarrow> string option" where
  "profile_type_of p = (case p of None \<Rightarrow> None | Some r \<Rightarrow> profile_type r)"

text \<open>
  \<open>res.status(s).json(b)\<close>: \<open>JSON.stringify\<close> of a body of strings cannot throw; that of
  a body that holds rows is a step that may fail, as the world says.
\<close>

definition holds_rows :: "body \<Rightarrow> bool" where
  "holds_rows b = (case b of ProfileBody _ _ _ \<Rightarrow> True | _ \<Rightarrow> False)"

definition res_json :: "response \<Rightarrow> response io" where
  "res_json r = (if holds_rows (body r) then fallible (return_io r) else return_io r)"

text \<open>Lines 88 to 99: what follows the resolution of \<open>user\<close>.\<close>

definition respond :: "user option \<Rightarrow> response io" where
  "respond user =
     (case user of
        None \<Rightarrow> res_json invalid_auth
      | Some u \<Rightarrow>
          await (getProfileForUser (uid u)) (\<lambda>profile.
            res_json \<lparr>status = 200, body = ProfileBody u profile (profile_type_of profile)\<rparr>))"

text \<open>The body of the \<open>try\<close> block.\<close>

definition handler_try :: "request \<Rightarrow> response io" where
  "handler_try req =
     await ensureSchema (\<lambda>_.
       let devUserId = or_null (headers req ''x-user-id'');
           authHeader = or_empty (headers req ''authorization'');
           bearer = bearer_of authHeader
       in case devUserId of
            Some d \<Rightarrow>
              await (getUserById d) (\<lambda>user.
                case user of
                  Some u \<Rightarrow> respond (Some u)
                | None \<Rightarrow>
                    await (pool_query (InsertUser d) (insert_user d)) (\<lambda>_.
                      await (getUserById d) respond))
          | None \<Rightarrow>
              (case bearer of
                 Some b \<Rightarrow>
                   (if b \<noteq> [] then await (getUserByToken b) respond
                    else res_json missing_auth)
               | None \<Rightarrow> res_json missing_auth))"

text \<open>
  \<open>String(err?.message || err)\<close>: a message that is not empty is the result. Otherwise
  the result is \<open>String(err)\<close>, and \<open>Error.prototype.toString\<close> of an error with an
  empty message is its name.
\<close>

definition details_of :: "js_error \<Rightarrow> string" where
  "details_of err = (if err_message err \<noteq> [] then err_message err else err_name err)"

definition server_error :: "js_error \<Rightarrow> response" where
  "server_error err = \<lparr>status = 500, body = ServerErrorBody ''Server error'' (details_of err)\<rparr>"

text \<open>
  The handler: the \<open>try\<close> block and its \<open>catch\<close>. The result is the promise of the
  handler: fulfilled with the response that was sent, or rejected with what the \<open>catch\<close>
  block threw.
\<close>

definition handler :: "request \<Rightarrow> response io" where
  "handler req w =
     (case handler_try req w of
        (Inr r, w') \<Rightarrow> (Inr r, w')
      | (Inl err, w') \<Rightarrow> res_json (server_error err) (log_event (ConsoleError err) w'))"

text \<open>The events of a run: those of the world after it that were not there before.\<close>

definition new_events :: "world \<Rightarrow> world \<Rightarrow> event list" where
  "new_events w w' = drop (length (trace w)) (trace w')"

subsection \<open>Notions used to state the properties\<close>

text \<open>The rows of a table; a table that does not exist has none.\<close>

definition rows_of :: "'a list option \<Rightarrow> 'a list" where
  "rows_of t = (case t of None \<Rightarrow> [] | Some rs \<Rightarrow> rs)"

text \<open>What a complete run of \<open>ensureSchema\<close> does to the outside.\<close>

definition bootstrap_events :: "event list" where
  "bootstrap_events =
     [PoolConnect, ClientQuery CreateUsersTable, ClientQuery CreateProfilesTable, ClientRelease]"

text \<open>The world after a complete run of \<open>ensureSchema\<close>: both tables exist, with the rows
  they had.\<close>

definition bootstrapped :: "world \<Rightarrow> world" where
  "bootstrapped w =
     w\<lparr>users := Some (rows_of (users w)), profiles := Some (rows_of (profiles w)),
       trace := trace w @ bootstrap_events\<rparr>"

text \<open>\<open>ensureSchema\<close> invoked \<open>n\<close> times in succession.\<close>

fun ensureSchema_times :: "nat \<Rightarrow> unit io" where
  "ensureSchema_times 0 = return_io ()"
| "ensureSchema_times (Suc n) = await ensureSchema (\<lambda>_. ensureSchema_times n)"

text \<open>A lookup of a user by token, whatever the token.\<close>

definition is_token_lookup :: "event \<Rightarrow> bool" where
  "is_token_lookup ev = (case ev of PoolQuery (SelectUserByToken _) \<Rightarrow> True | _ \<Rightarrow> False)"

text \<open>An operation that looks no token up, in any world.\<close>

definition quiet :: "'a io \<Rightarrow> bool" where
  "quiet m =
     (\<forall>w. \<exists>evs. trace (snd (m w)) = trace w @ evs \<and> (\<forall>ev\<in>set evs. \<not> is_token_lookup ev))"

text \<open>
  The failures in store before and after a run: the run went through (it used up entries
  \<open>None\<close> only), or it met the failure \<open>e\<close> (it used up entries \<open>None\<close>, then
  \<open>Some e\<close>). A run ends with an error either for such a failure or because the store
  refused a parameter.
\<close>

definition passed :: "world \<Rightarrow> world \<Rightarrow> bool" where
  "passed w w' = (\<exists>n. faults w = replicate n None @ faults w')"

definition failed :: "world \<Rightarrow> js_error \<Rightarrow> world \<Rightarrow> bool" where
  "failed w e w' = (\<exists>n. faults w = replicate n None @ Some e # faults w')"

definition refusal :: "js_error \<Rightarrow> bool" where
  "refusal e = (e = invalid_byte_sequence \<or> (\<exists>n. 2704 < n \<and> e = index_row_too_large n))"

definition accounted :: "world \<Rightarrow> (js_error + 'a) \<times> world \<Rightarrow> bool" where
  "accounted w out =
     (case out of
        (Inl e, w') \<Rightarrow> failed w e w' \<or> (refusal e \<and> passed w w')
      | (Inr _, w') \<Rightarrow> passed w w')"

subsection \<open>Example data\<close>

text \<open>
  The size of the index row of a key that is not compressed: a header of 8 bytes, the
  length word of the value (one byte up to 126 bytes of data, else four), the data, rounded
  up to a multiple of 8.
\<close>

definition plain_row_size :: "string \<Rightarrow> nat" where
  "plain_row_size s =
     8 * ((8 + (if length s \<le> 126 then 1 else 4) + length s + 7) div 8)"

definition fresh_store :: world where
  "fresh_store =
     \<lparr>users = None, profiles = None, clock = 1000, checked_out = 0,
      index_row_size = plain_row_size, faults = [], trace = []\<rparr>"

definition alice :: user where
  "alice = \<lparr>uid = ''alice'', token = Some ''s3cret'', email = None, created_at = Some 5\<rparr>"

definition alice_profile :: profile where
  "alice_profile =
     \<lparr>user_id = ''alice'', profile_type = Some ''musician'', display_name = None, bio = None,
      metadata = None, updated_at = Some 7\<rparr>"

definition alice_store :: world where
  "alice_store =
     \<lparr>users = Some [alice], profiles = Some [alice_profile], clock = 1000, checked_out = 0,
      index_row_size = plain_row_size, faults = [], trace = []\<rparr>"

definition request_of :: "(string \<times> string) list \<Rightarrow> request" where
  "request_of hs = \<lparr>headers = map_of hs\<rparr>"

text \<open>
  An id of 2700 printable characters that does not compress: the output of a linear
  congruential generator, in which no three consecutive characters occur twice.
\<close>

fun lcg_chars :: "nat \<Rightarrow> int \<Rightarrow> string" where
  "lcg_chars 0 x = []"
| "lcg_chars (Suc n) x =
     char_of (33 + (x div 65536) mod 94) # lcg_chars n ((1103515245 * x + 12345) mod 2147483648)"

definition long_id :: string where
  "long_id = lcg_chars 2700 1"

text \<open>The insert fails; the connection is refused; the 200 body does not serialize.\<close>

definition flaky_store :: world where
  "flaky_store =
     alice_store\<lparr>faults := [None, None, None, None, Some (JsError ''Error'' ''Connection terminated'')]\<rparr>"

definition refusing_store :: world where
  "refusing_store = alice_store\<lparr>faults := [Some (JsError ''AggregateError'' [])]\<rparr>"

definition unserializable_store :: world where
  "unserializable_store =
     alice_store\<lparr>faults := [None, None, None, None, None,
       Some (JsError ''TypeError'' ''Do not know how to serialize a BigInt'')]\<rparr>"

section \<open>Properties\<close>

subsection \<open>Round trips that go through\<close>

lemma log_event_simps:
  "users (log_event ev w) = users w"
  "profiles (log_event ev w) = profiles w"
  "faults (log_event ev w) = faults w"
  "clock (log_event ev w) = clock w"
  "checked_out (log_event ev w) = checked_out w"
  "index_row_size (log_event ev w) = index_row_size w"
  "trace (log_event ev w) = trace w @ [ev]"
  by (simp_all add: log_event_def)

lemma bootstrapped_simps:
  "users (bootstrapped w) = Some (rows_of (users w))"
  "profiles (bootstrapped w) = Some (rows_of (profiles w))"
  "faults (bootstrapped w) = faults w"
  "clock (bootstrapped w) = clock w"
  "checked_out (bootstrapped w) = checked_out w"
  "index_row_size (bootstrapped w) = index_row_size w"
  "trace (bootstrapped w) = trace w @ bootstrap_events"
  by (simp_all add: bootstrapped_def)

lemma round_trip_no_fault:
  "faults w = [] \<Longrightarrow> round_trip ev act w = act (log_event ev w)"
  by (simp add: round_trip_def fallible_def log_event_def)

lemma first_or_null_take_filter: "first_or_null (take (Suc 0) (filter P xs)) = find P xs"
  by (induction xs) (simp_all add: first_or_null_def)

lemma ensureSchema_no_fault:
  "faults w = [] \<Longrightarrow> ensureSchema w = (Inr (), bootstrapped w)"
  by (cases "users w"; cases "profiles w")
     (simp_all add: ensureSchema_def await_def try_finally_def pool_connect_def client_query_def
       client_release_def round_trip_no_fault log_event_def create_users_table_def
       create_profiles_table_def rows_of_def bootstrap_events_def bootstrapped_def)

lemma ensureSchema_times_no_fault:
  "faults w = [] \<Longrightarrow> fst (ensureSchema_times n w) = Inr ()"
proof (induction n arbitrary: w)
  case 0
  then show ?case by (simp add: return_io_def)
next
  case (Suc n)
  then show ?case by (simp add: await_def ensureSchema_no_fault bootstrapped_simps)
qed

lemma ensureSchema_outcome:
  "ensureSchema w = (r, w') \<Longrightarrow>
     checked_out w' = checked_out w \<and>
     trace w' = trace w @ new_events w w' \<and>
     (case faults w of
        Some e # fs \<Rightarrow> r = Inl e \<and> new_events w w' = [PoolConnect]
      | None # Some e # fs \<Rightarrow>
          r = Inl e \<and> new_events w w' = [PoolConnect, ClientQuery CreateUsersTable, ClientRelease]
      | None # None # Some e # fs \<Rightarrow> r = Inl e \<and> new_events w w' = bootstrap_events
      | _ \<Rightarrow> r = Inr () \<and> new_events w w' = bootstrap_events)"
  by (cases "users w"; cases "profiles w")
     (auto simp add: ensureSchema_def await_def try_finally_def pool_connect_def client_query_def
       client_release_def round_trip_def fallible_def log_event_def create_users_table_def Let_def
       new_events_def create_profiles_table_def bootstrap_events_def
       split: list.splits option.splits)

lemma ensureSchema_tables:
  "ensureSchema w = (Inr x, w') \<Longrightarrow> users w' \<noteq> None \<and> profiles w' \<noteq> None"
  by (cases "users w"; cases "profiles w")
     (auto simp add: ensureSchema_def await_def try_finally_def pool_connect_def client_query_def
       client_release_def round_trip_def fallible_def log_event_def create_users_table_def Let_def
       create_profiles_table_def undefined_table_def split: list.splits option.splits)

subsection \<open>The schema bootstrapper\<close>

text \<open>
  Claim C9. Whatever the store does, \<open>ensureSchema\<close> asks the pool for a connection exactly
  once. If the connection is refused nothing else happens. Otherwise it sends the statement
  for \<open>users\<close>, then (if that went through) the statement for \<open>profiles\<close>, and releases
  the client last, also when a statement failed: the number of clients checked out is the
  same after as before. Without a failure of the store it succeeds, leaves both tables in
  existence, and does so again however often it is invoked.
\<close>

theorem ensureSchema_connection_discipline:
  "ensureSchema w = (r, w') \<Longrightarrow>
     checked_out w' = checked_out w \<and>
     trace w' = trace w @ new_events w w' \<and>
     length (filter (\<lambda>ev. ev = PoolConnect) (new_events w w')) = 1 \<and>
     (case faults w of
        Some e # fs \<Rightarrow> r = Inl e \<and> new_events w w' = [PoolConnect]
      | None # Some e # fs \<Rightarrow>
          r = Inl e \<and> new_events w w' = [PoolConnect, ClientQuery CreateUsersTable, ClientRelease]
      | None # None # Some e # fs \<Rightarrow>
          r = Inl e \<and>
          new_events w w' =
            [PoolConnect, ClientQuery CreateUsersTable, ClientQuery CreateProfilesTable,
             ClientRelease]
      | _ \<Rightarrow>
          r = Inr () \<and> users w' \<noteq> None \<and> profiles w' \<noteq> None \<and>
          new_events w w' =
            [PoolConnect, ClientQuery CreateUsersTable, ClientQuery CreateProfilesTable,
             ClientRelease]) \<and>
     (faults w = [] \<longrightarrow> (\<forall>n. fst (ensureSchema_times n w) = Inr ()))"
proof -
  assume run: "ensureSchema w = (r, w')"
  note out = ensureSchema_outcome [OF run]
  have tables: "r = Inr () \<Longrightarrow> users w' \<noteq> None \<and> profiles w' \<noteq> None"
    using ensureSchema_tables [of w "()" w'] run by simp
  have count: "length (filter (\<lambda>ev. ev = PoolConnect) (new_events w w')) = 1"
    using out by (auto simp add: bootstrap_events_def split: list.splits option.splits)
  have shape: "case faults w of
        Some e # fs \<Rightarrow> r = Inl e \<and> new_events w w' = [PoolConnect]
      | None # Some e # fs \<Rightarrow>
          r = Inl e \<and> new_events w w' = [PoolConnect, ClientQuery CreateUsersTable, ClientRelease]
      | None # None # Some e # fs \<Rightarrow>
          r = Inl e \<and>
          new_events w w' =
            [PoolConnect, ClientQuery CreateUsersTable, ClientQuery CreateProfilesTable,
             ClientRelease]
      | _ \<Rightarrow>
          r = Inr () \<and> users w' \<noteq> None \<and> profiles w' \<noteq> None \<and>
          new_events w w' =
            [PoolConnect, ClientQuery CreateUsersTable, ClientQuery CreateProfilesTable,
             ClientRelease]"
    using out tables by (auto simp add: bootstrap_events_def split: list.splits option.splits)
  from out count shape show ?thesis
    by (simp add: ensureSchema_times_no_fault)
qed

theorem ensureSchema_connection_discipline_witness:
  "ensureSchema (fresh_store\<lparr>faults := [None, Some (JsError ''Error'' ''timeout'')]\<rparr>) =
     (Inl (JsError ''Error'' ''timeout''),
      fresh_store\<lparr>trace := [PoolConnect, ClientQuery CreateUsersTable, ClientRelease]\<rparr>) \<and>
   checked_out (fresh_store\<lparr>trace := [PoolConnect, ClientQuery CreateUsersTable, ClientRelease]\<rparr>)
     = checked_out fresh_store \<and>
   fst (ensureSchema_times 3 fresh_store) = Inr ()"
proof -
  have run: "ensureSchema (fresh_store\<lparr>faults := [None, Some (JsError ''Error'' ''timeout'')]\<rparr>) =
     (Inl (JsError ''Error'' ''timeout''),
      fresh_store\<lparr>trace := [PoolConnect, ClientQuery CreateUsersTable, ClientRelease]\<rparr>)"
    by (simp add: ensureSchema_def await_def try_finally_def pool_connect_def client_query_def
        client_release_def round_trip_def fallible_def log_event_def create_users_table_def Let_def
        fresh_store_def)
  have again: "ensureSchema fresh_store =
      (fst (ensureSchema fresh_store), snd (ensureSchema fresh_store))"
    by simp
  show ?thesis
    using run ensureSchema_connection_discipline [OF run]
      ensureSchema_connection_discipline [OF again]
    by (simp add: fresh_store_def)
qed

subsection \<open>The handler when no step fails\<close>

lemma fallible_no_fault: "faults w = [] \<Longrightarrow> fallible act w = act w"
  by (simp add: fallible_def)

lemma res_json_strings: "\<not> holds_rows (body r) \<Longrightarrow> res_json r = return_io r"
  by (simp add: res_json_def)

lemma res_json_simps:
  "res_json missing_auth = return_io missing_auth"
  "res_json invalid_auth = return_io invalid_auth"
  "res_json (server_error e) = return_io (server_error e)"
  by (simp_all add: res_json_def holds_rows_def missing_auth_def invalid_auth_def server_error_def)

lemma res_json_no_fault: "faults w = [] \<Longrightarrow> res_json r w = (Inr r, w)"
  by (simp add: res_json_def fallible_no_fault return_io_def)

lemma getUserById_no_fault:
  "faults w = [] \<Longrightarrow> users w = Some us \<Longrightarrow> valid_text U \<Longrightarrow>
   getUserById U w = (Inr (find (\<lambda>u. uid u = U) us), log_event (PoolQuery (SelectUserById U)) w)"
  by (simp add: getUserById_def await_def pool_query_def round_trip_no_fault select_user_by_id_def
      return_io_def first_or_null_take_filter log_event_def)

lemma getUserByToken_no_fault:
  "faults w = [] \<Longrightarrow> users w = Some us \<Longrightarrow> valid_text T \<Longrightarrow>
   getUserByToken T w =
     (Inr (find (\<lambda>u. token u = Some T) us), log_event (PoolQuery (SelectUserByToken T)) w)"
  by (simp add: getUserByToken_def await_def pool_query_def round_trip_no_fault
      select_user_by_token_def return_io_def first_or_null_take_filter log_event_def)

lemma getProfileForUser_no_fault:
  "faults w = [] \<Longrightarrow> profiles w = Some ps \<Longrightarrow> valid_text U \<Longrightarrow>
   getProfileForUser U w =
     (Inr (find (\<lambda>p. user_id p = U) ps), log_event (PoolQuery (SelectProfileByUserId U)) w)"
  by (simp add: getProfileForUser_def await_def pool_query_def round_trip_no_fault
      select_profile_by_user_id_def return_io_def first_or_null_take_filter log_event_def)

lemma insert_user_no_fault:
  "faults w = [] \<Longrightarrow> users w = Some us \<Longrightarrow> valid_text U \<Longrightarrow>
   U \<in> set (map uid us) \<or> index_row_size w U \<le> 2704 \<Longrightarrow>
   pool_query (InsertUser U) (insert_user U) w =
     (Inr [],
      if U \<in> set (map uid us) then log_event (PoolQuery (InsertUser U)) w
      else (log_event (PoolQuery (InsertUser U)) w)\<lparr>users := Some (us @ [new_user U (clock w)])\<rparr>)"
  by (auto simp add: pool_query_def round_trip_no_fault insert_user_def log_event_def)

lemma insert_user_refused:
  "faults w = [] \<Longrightarrow> users w = Some us \<Longrightarrow> valid_text U \<Longrightarrow> U \<notin> set (map uid us) \<Longrightarrow>
   2704 < index_row_size w U \<Longrightarrow>
   pool_query (InsertUser U) (insert_user U) w =
     (Inl (index_row_too_large (index_row_size w U)), log_event (PoolQuery (InsertUser U)) w)"
  by (simp add: pool_query_def round_trip_no_fault insert_user_def log_event_def)

lemma getUserById_refused:
  "faults w = [] \<Longrightarrow> users w = Some us \<Longrightarrow> \<not> valid_text U \<Longrightarrow>
   getUserById U w = (Inl invalid_byte_sequence, log_event (PoolQuery (SelectUserById U)) w)"
  by (simp add: getUserById_def await_def pool_query_def round_trip_no_fault select_user_by_id_def
      log_event_simps)

lemma getUserByToken_refused:
  "faults w = [] \<Longrightarrow> users w = Some us \<Longrightarrow> \<not> valid_text T \<Longrightarrow>
   getUserByToken T w = (Inl invalid_byte_sequence, log_event (PoolQuery (SelectUserByToken T)) w)"
  by (simp add: getUserByToken_def await_def pool_query_def round_trip_no_fault
      select_user_by_token_def log_event_simps)

lemma respond_no_fault:
  "faults w = [] \<Longrightarrow> profiles w = Some ps \<Longrightarrow> valid_text (uid u) \<Longrightarrow>
   respond (Some u) w =
     (Inr \<lparr>status = 200,
           body = ProfileBody u (find (\<lambda>p. user_id p = uid u) ps)
                    (profile_type_of (find (\<lambda>p. user_id p = uid u) ps))\<rparr>,
      log_event (PoolQuery (SelectProfileByUserId (uid u))) w)"
  by (simp add: respond_def await_def getProfileForUser_no_fault res_json_no_fault log_event_simps)

lemma respond_None: "respond None w = (Inr invalid_auth, w)"
  by (simp add: respond_def res_json_simps return_io_def)

lemma find_uid_None: "U \<notin> set (map uid us) \<Longrightarrow> find (\<lambda>u. uid u = U) us = None"
  by (induction us) auto

lemma find_uid_Some: "find (\<lambda>u. uid u = U) us = Some u \<Longrightarrow> uid u = U \<and> u \<in> set us"
  by (induction us) (auto split: if_splits)

lemma find_new_user:
  "U \<notin> set (map uid us) \<Longrightarrow> find (\<lambda>u. uid u = U) (us @ [new_user U t]) = Some (new_user U t)"
  by (induction us) (auto simp add: new_user_def)

text \<open>
  What the store refuses, on examples: a statement on a table that does not exist (which is
  why the bootstrap runs first), and a text parameter with a NUL byte, in every statement
  that binds one.
\<close>

lemma lookup_without_bootstrap:
  "fst (getUserById ''bob'' fresh_store) =
     Inl (JsError ''error'' ''relation \"users\" does not exist'')"
  "fst (getUserByToken ''s3cret'' fresh_store) =
     Inl (JsError ''error'' ''relation \"users\" does not exist'')"
  "fst (getProfileForUser ''bob'' fresh_store) =
     Inl (JsError ''error'' ''relation \"profiles\" does not exist'')"
  "fst (pool_query (InsertUser ''bob'') (insert_user ''bob'') fresh_store) =
     Inl (JsError ''error'' ''relation \"users\" does not exist'')"
  "fst (client_query CreateProfilesTable create_profiles_table fresh_store) =
     Inl (JsError ''error'' ''relation \"users\" does not exist'')"
  by (simp_all add: getUserById_def getUserByToken_def getProfileForUser_def await_def
      pool_query_def client_query_def round_trip_no_fault fresh_store_def log_event_def
      select_user_by_id_def select_user_by_token_def select_profile_by_user_id_def
      insert_user_def create_profiles_table_def undefined_table_def)

lemma nul_parameter_refused:
  "fst (getUserById [CHR ''a'', CHR 0x00] alice_store) =
     Inl (JsError ''error'' ''invalid byte sequence for encoding \"UTF8\": 0x00'')"
  "fst (getUserByToken [CHR ''a'', CHR 0x00] alice_store) =
     Inl (JsError ''error'' ''invalid byte sequence for encoding \"UTF8\": 0x00'')"
  "fst (getProfileForUser [CHR ''a'', CHR 0x00] alice_store) =
     Inl (JsError ''error'' ''invalid byte sequence for encoding \"UTF8\": 0x00'')"
  "fst (pool_query (InsertUser [CHR ''a'', CHR 0x00]) (insert_user [CHR ''a'', CHR 0x00])
          alice_store) =
     Inl (JsError ''error'' ''invalid byte sequence for encoding \"UTF8\": 0x00'')"
  by (simp_all add: getUserById_def getUserByToken_def getProfileForUser_def await_def
      pool_query_def round_trip_no_fault alice_store_def log_event_def
      select_user_by_id_def select_user_by_token_def select_profile_by_user_id_def
      insert_user_def valid_text_def invalid_byte_sequence_def)

text \<open>The numbers in the messages of the store, and the sizes of index rows, on examples.\<close>

lemma show_nat_examples:
  "show_nat 0 = ''0''"
  "show_nat 2712 = ''2712''"
  "show_nat 1234567890 = ''1234567890''"
  by (simp_all add: show_nat.simps)

lemma plain_row_size_examples:
  "plain_row_size ''alice'' = 16"
  "plain_row_size (replicate 126 (CHR ''a'')) = 136"
  "plain_row_size (replicate 127 (CHR ''a'')) = 144"
  "plain_row_size (replicate 2692 (CHR ''a'')) = 2704"
  "plain_row_size (replicate 2693 (CHR ''a'')) = 2712"
  by (simp_all add: plain_row_size_def)

text \<open>The ways through the try block when no step fails.\<close>

lemma handler_try_dev_new:
  assumes "faults w = []" and "or_null (headers req ''x-user-id'') = Some U"
    and "U \<notin> set (map uid (rows_of (users w)))"
    and "valid_text U" and "index_row_size w U \<le> 2704"
  shows "handler_try req w =
     (Inr \<lparr>status = 200,
           body = ProfileBody (new_user U (clock w))
                    (find (\<lambda>p. user_id p = U) (rows_of (profiles w)))
                    (profile_type_of (find (\<lambda>p. user_id p = U) (rows_of (profiles w))))\<rparr>,
      (bootstrapped w)\<lparr>users := Some (rows_of (users w) @ [new_user U (clock w)]),
        trace := trace w @ bootstrap_events @
          [PoolQuery (SelectUserById U), PoolQuery (InsertUser U), PoolQuery (SelectUserById U),
           PoolQuery (SelectProfileByUserId U)]\<rparr>)"
proof -
  let ?w1 = "bootstrapped w"
  let ?us = "rows_of (users w)"
  let ?n = "new_user U (clock w)"
  let ?w2 = "log_event (PoolQuery (SelectUserById U)) ?w1"
  let ?w3 = "(log_event (PoolQuery (InsertUser U)) ?w2)\<lparr>users := Some (?us @ [?n])\<rparr>"
  let ?w4 = "log_event (PoolQuery (SelectUserById U)) ?w3"
  have 1: "getUserById U ?w1 = (Inr None, ?w2)"
    using assms
    by (simp add: getUserById_no_fault [where us = ?us] bootstrapped_simps find_uid_None)
  have 2: "pool_query (InsertUser U) (insert_user U) ?w2 = (Inr [], ?w3)"
    using assms
    by (simp add: insert_user_no_fault [where us = ?us] bootstrapped_simps log_event_simps
        bootstrapped_def log_event_def)
  have 3: "getUserById U ?w3 = (Inr (Some ?n), ?w4)"
    using assms
    by (simp add: getUserById_no_fault [where us = "?us @ [?n]"] bootstrapped_simps
        log_event_simps find_new_user)
  have 4: "respond (Some ?n) ?w4 =
     (Inr \<lparr>status = 200,
           body = ProfileBody ?n
                    (find (\<lambda>p. user_id p = U) (rows_of (profiles w)))
                    (profile_type_of (find (\<lambda>p. user_id p = U) (rows_of (profiles w))))\<rparr>,
      log_event (PoolQuery (SelectProfileByUserId U)) ?w4)"
    using assms
    by (simp add: respond_no_fault [where ps = "rows_of (profiles w)"] bootstrapped_simps
        log_event_simps new_user_def)
  have "handler_try req w = respond (Some ?n) ?w4"
    using assms 1 2 3 by (simp add: handler_try_def await_def ensureSchema_no_fault)
  also note 4
  also have "log_event (PoolQuery (SelectProfileByUserId U)) ?w4 =
      (bootstrapped w)\<lparr>users := Some (rows_of (users w) @ [new_user U (clock w)]),
        trace := trace w @ bootstrap_events @
          [PoolQuery (SelectUserById U), PoolQuery (InsertUser U), PoolQuery (SelectUserById U),
           PoolQuery (SelectProfileByUserId U)]\<rparr>"
    by (simp add: log_event_def bootstrapped_def)
  finally show ?thesis .
qed

lemma handler_try_dev_too_large:
  assumes "faults w = []" and "or_null (headers req ''x-user-id'') = Some U"
    and "U \<notin> set (map uid (rows_of (users w)))"
    and "valid_text U" and "2704 < index_row_size w U"
  shows "handler_try req w =
     (Inl (index_row_too_large (index_row_size w U)),
      (bootstrapped w)\<lparr>trace := trace w @ bootstrap_events @
          [PoolQuery (SelectUserById U), PoolQuery (InsertUser U)]\<rparr>)"
proof -
  let ?w1 = "bootstrapped w"
  let ?us = "rows_of (users w)"
  let ?w2 = "log_event (PoolQuery (SelectUserById U)) ?w1"
  have 1: "getUserById U ?w1 = (Inr None, ?w2)"
    using assms
    by (simp add: getUserById_no_fault [where us = ?us] bootstrapped_simps find_uid_None)
  have 2: "pool_query (InsertUser U) (insert_user U) ?w2 =
      (Inl (index_row_too_large (index_row_size w U)), log_event (PoolQuery (InsertUser U)) ?w2)"
    using assms
    by (simp add: insert_user_refused [where us = ?us] bootstrapped_simps log_event_simps
        bootstrapped_def log_event_def)
  have "handler_try req w =
      (Inl (index_row_too_large (index_row_size w U)), log_event (PoolQuery (InsertUser U)) ?w2)"
    using assms 1 2 by (simp add: handler_try_def await_def ensureSchema_no_fault)
  also have "log_event (PoolQuery (InsertUser U)) ?w2 =
      (bootstrapped w)\<lparr>trace := trace w @ bootstrap_events @
          [PoolQuery (SelectUserById U), PoolQuery (InsertUser U)]\<rparr>"
    by (simp add: log_event_def bootstrapped_def)
  finally show ?thesis .
qed

lemma handler_try_dev_nul:
  assumes "faults w = []" and "or_null (headers req ''x-user-id'') = Some U"
    and "\<not> valid_text U"
  shows "handler_try req w =
     (Inl invalid_byte_sequence,
      (bootstrapped w)\<lparr>trace := trace w @ bootstrap_events @ [PoolQuery (SelectUserById U)]\<rparr>)"
proof -
  let ?w1 = "bootstrapped w"
  have 1: "getUserById U ?w1 =
      (Inl invalid_byte_sequence, log_event (PoolQuery (SelectUserById U)) ?w1)"
    using assms
    by (simp add: getUserById_refused [where us = "rows_of (users w)"] bootstrapped_simps)
  have "handler_try req w =
      (Inl invalid_byte_sequence, log_event (PoolQuery (SelectUserById U)) ?w1)"
    using assms 1 by (simp add: handler_try_def await_def ensureSchema_no_fault)
  also have "log_event (PoolQuery (SelectUserById U)) ?w1 =
      (bootstrapped w)\<lparr>trace := trace w @ bootstrap_events @ [PoolQuery (SelectUserById U)]\<rparr>"
    by (simp add: log_event_def bootstrapped_def)
  finally show ?thesis .
qed

lemma handler_try_dev_known:
  assumes "faults w = []" and "or_null (headers req ''x-user-id'') = Some U"
    and "find (\<lambda>r. uid r = U) (rows_of (users w)) = Some u" and "valid_text U"
  shows "handler_try req w =
     (Inr \<lparr>status = 200,
           body = ProfileBody u
                    (find (\<lambda>p. user_id p = U) (rows_of (profiles w)))
                    (profile_type_of (find (\<lambda>p. user_id p = U) (rows_of (profiles w))))\<rparr>,
      (bootstrapped w)\<lparr>trace := trace w @ bootstrap_events @
          [PoolQuery (SelectUserById U), PoolQuery (SelectProfileByUserId U)]\<rparr>)"
proof -
  let ?w1 = "bootstrapped w"
  let ?w2 = "log_event (PoolQuery (SelectUserById U)) ?w1"
  have u: "uid u = U"
    using find_uid_Some [OF assms(3)] by simp
  have 1: "getUserById U ?w1 = (Inr (Some u), ?w2)"
    using assms
    by (simp add: getUserById_no_fault [where us = "rows_of (users w)"] bootstrapped_simps)
  have 2: "respond (Some u) ?w2 =
     (Inr \<lparr>status = 200,
           body = ProfileBody u
                    (find (\<lambda>p. user_id p = U) (rows_of (profiles w)))
                    (profile_type_of (find (\<lambda>p. user_id p = U) (rows_of (profiles w))))\<rparr>,
      log_event (PoolQuery (SelectProfileByUserId U)) ?w2)"
    using assms u
    by (simp add: respond_no_fault [where ps = "rows_of (profiles w)"] bootstrapped_simps
        log_event_simps)
  have "handler_try req w = respond (Some u) ?w2"
    using assms 1 by (simp add: handler_try_def await_def ensureSchema_no_fault)
  also note 2
  also have "log_event (PoolQuery (SelectProfileByUserId U)) ?w2 =
      (bootstrapped w)\<lparr>trace := trace w @ bootstrap_events @
          [PoolQuery (SelectUserById U), PoolQuery (SelectProfileByUserId U)]\<rparr>"
    by (simp add: log_event_def bootstrapped_def)
  finally show ?thesis .
qed

lemma handler_try_bearer:
  assumes "faults w = []" and "or_null (headers req ''x-user-id'') = None"
    and "bearer_of (or_empty (headers req ''authorization'')) = Some b" and "b \<noteq> []"
    and "valid_text b"
  shows "handler_try req w =
     respond (find (\<lambda>r. token r = Some b) (rows_of (users w)))
       ((bootstrapped w)\<lparr>trace := trace w @ bootstrap_events @ [PoolQuery (SelectUserByToken b)]\<rparr>)"
proof -
  let ?w1 = "bootstrapped w"
  have 1: "getUserByToken b ?w1 =
      (Inr (find (\<lambda>r. token r = Some b) (rows_of (users w))),
       log_event (PoolQuery (SelectUserByToken b)) ?w1)"
    using assms
    by (simp add: getUserByToken_no_fault [where us = "rows_of (users w)"] bootstrapped_simps)
  have "handler_try req w =
      respond (find (\<lambda>r. token r = Some b) (rows_of (users w)))
        (log_event (PoolQuery (SelectUserByToken b)) ?w1)"
    using assms 1 by (simp add: handler_try_def await_def ensureSchema_no_fault)
  also have "log_event (PoolQuery (SelectUserByToken b)) ?w1 =
      (bootstrapped w)\<lparr>trace := trace w @ bootstrap_events @ [PoolQuery (SelectUserByToken b)]\<rparr>"
    by (simp add: log_event_def bootstrapped_def)
  finally show ?thesis .
qed

lemma handler_try_bearer_nul:
  assumes "faults w = []" and "or_null (headers req ''x-user-id'') = None"
    and "bearer_of (or_empty (headers req ''authorization'')) = Some b" and "b \<noteq> []"
    and "\<not> valid_text b"
  shows "handler_try req w =
     (Inl invalid_byte_sequence,
      (bootstrapped w)\<lparr>trace := trace w @ bootstrap_events @ [PoolQuery (SelectUserByToken b)]\<rparr>)"
proof -
  let ?w1 = "bootstrapped w"
  have 1: "getUserByToken b ?w1 =
      (Inl invalid_byte_sequence, log_event (PoolQuery (SelectUserByToken b)) ?w1)"
    using assms
    by (simp add: getUserByToken_refused [where us = "rows_of (users w)"] bootstrapped_simps)
  have "handler_try req w =
      (Inl invalid_byte_sequence, log_event (PoolQuery (SelectUserByToken b)) ?w1)"
    using assms 1 by (simp add: handler_try_def await_def ensureSchema_no_fault)
  also have "log_event (PoolQuery (SelectUserByToken b)) ?w1 =
      (bootstrapped w)\<lparr>trace := trace w @ bootstrap_events @ [PoolQuery (SelectUserByToken b)]\<rparr>"
    by (simp add: log_event_def bootstrapped_def)
  finally show ?thesis .
qed

lemma handler_try_no_credentials:
  assumes "or_null (headers req ''x-user-id'') = None"
    and "bearer_of (or_empty (headers req ''authorization'')) = None \<or>
         bearer_of (or_empty (headers req ''authorization'')) = Some []"
  shows "handler_try req = await ensureSchema (\<lambda>_. return_io missing_auth)"
proof -
  from assms(2) show ?thesis
  proof
    assume "bearer_of (or_empty (headers req ''authorization'')) = None"
    with assms(1) show ?thesis by (simp add: handler_try_def res_json_simps)
  next
    assume "bearer_of (or_empty (headers req ''authorization'')) = Some []"
    with assms(1) show ?thesis by (simp add: handler_try_def res_json_simps)
  qed
qed

lemma handler_no_try: "handler_try req w = (Inr r, w') \<Longrightarrow> handler req w = (Inr r, w')"
  by (simp add: handler_def)

lemma handler_caught:
  "handler_try req w = (Inl e, w') \<Longrightarrow>
   handler req w = (Inr (server_error e), log_event (ConsoleError e) w')"
  by (simp add: handler_def res_json_simps return_io_def)

lemma find_distinct_uid:
  "distinct (map uid us) \<Longrightarrow> u \<in> set us \<Longrightarrow> find (\<lambda>r. uid r = uid u) us = Some u"
  by (induction us) auto

lemma find_token_None: "Some T \<notin> set (map token us) \<Longrightarrow> find (\<lambda>r. token r = Some T) us = None"
  by (induction us) auto

lemma or_null_Some: "h = Some U \<Longrightarrow> U \<noteq> [] \<Longrightarrow> or_null h = Some U"
  by (simp add: or_null_def)

lemma or_null_None: "h = None \<Longrightarrow> or_null h = None"
  by (simp add: or_null_def)

lemma bearer_of_prefix: "bearer_of (''Bearer '' @ T) = Some T"
  by (simp add: bearer_of_def startsWith_def)

lemma startsWith_Bearer: "startsWith h ''Bearer '' \<longleftrightarrow> take 7 h = ''Bearer ''"
proof -
  have "length ''Bearer '' = 7"
    by simp
  then show ?thesis
    unfolding startsWith_def by (simp only:)
qed

lemma bearer_of_None: "take 7 h \<noteq> ''Bearer '' \<Longrightarrow> bearer_of h = None"
  by (simp only: bearer_of_def startsWith_Bearer if_False)

subsection \<open>The developer header\<close>

lemma valid_text_iff: "valid_text s \<longleftrightarrow> CHR 0x00 \<notin> set s"
  by (simp add: valid_text_def)

lemma show_nat_2712: "show_nat 2712 = ''2712''"
  by code_simp

lemma length_lcg_chars: "length (lcg_chars n x) = n"
  by (induction n arbitrary: x) simp_all

lemma char_of_printable: "33 \<le> k \<Longrightarrow> k < 127 \<Longrightarrow> char_of (k::int) \<noteq> CHR 0x00"
proof
  assume k: "33 \<le> k" "k < 127" and "char_of k = CHR 0x00"
  then have "of_char (char_of k) = (of_char (CHR 0x00) :: int)"
    by simp
  then have "k mod 256 = 0"
    by simp
  with k show False by simp
qed

lemma lcg_chars_no_nul: "CHR 0x00 \<notin> set (lcg_chars n x)"
proof (induction n arbitrary: x)
  case 0
  then show ?case by simp
next
  case (Suc n)
  have "0 \<le> (x div 65536) mod 94" "(x div 65536) mod 94 < 94"
    by simp_all
  then have "char_of (33 + (x div 65536) mod 94) \<noteq> CHR 0x00"
    by (intro char_of_printable) simp_all
  with Suc show ?case by auto
qed

lemma long_id_facts:
  "long_id \<noteq> []" "valid_text long_id" "length long_id = 2700" "plain_row_size long_id = 2712"
proof -
  show len: "length long_id = 2700"
    by (simp add: long_id_def length_lcg_chars)
  then show "long_id \<noteq> []"
    by auto
  show "valid_text long_id"
    by (simp add: long_id_def valid_text_def lcg_chars_no_nul)
  show "plain_row_size long_id = 2712"
    by (simp add: plain_row_size_def len)
qed

lemma long_id_not_alice: "long_id \<notin> set (map uid [alice])"
proof -
  have "length (uid alice) = 5"
    by (simp add: alice_def)
  then have "uid alice \<noteq> long_id"
    using long_id_facts(3) by auto
  then show ?thesis by simp
qed

text \<open>
  Claim C1, as the code has it. When no step fails, a request whose \<open>x-user-id\<close> header is
  a non-empty string \<open>U\<close> that the store accepts as a key (no NUL byte, an index row of at
  most 2704 bytes) and that is the id of no user row is answered with status 200 and the new
  row \<open>(U, NULL, NULL, now())\<close>; that row has been appended to table \<open>users\<close>; the handler
  looked \<open>U\<close> up, inserted, and looked \<open>U\<close> up again; and sending the insert once more
  succeeds and leaves the store as it is. Nothing is assumed about the \<open>authorization\<close>
  header, and no token is looked up.
\<close>

theorem dev_header_provisions_unseen_user:
  assumes "faults w = []" and "headers req ''x-user-id'' = Some U" and "U \<noteq> []"
    and "U \<notin> set (map uid (rows_of (users w)))"
    and "CHR 0x00 \<notin> set U" and "index_row_size w U \<le> 2704"
  shows "fst (handler req w) =
           Inr \<lparr>status = 200,
            body = ProfileBody \<lparr>uid = U, token = None, email = None, created_at = Some (clock w)\<rparr>
                     (find (\<lambda>p. user_id p = U) (rows_of (profiles w)))
                     (profile_type_of (find (\<lambda>p. user_id p = U) (rows_of (profiles w))))\<rparr> \<and>
         users (snd (handler req w)) =
           Some (rows_of (users w) @
                 [\<lparr>uid = U, token = None, email = None, created_at = Some (clock w)\<rparr>]) \<and>
         new_events w (snd (handler req w)) =
           [PoolConnect, ClientQuery CreateUsersTable, ClientQuery CreateProfilesTable,
            ClientRelease, PoolQuery (SelectUserById U), PoolQuery (InsertUser U),
            PoolQuery (SelectUserById U), PoolQuery (SelectProfileByUserId U)] \<and>
         pool_query (InsertUser U) (insert_user U) (snd (handler req w)) =
           (Inr [], log_event (PoolQuery (InsertUser U)) (snd (handler req w)))"
proof -
  have v: "valid_text U"
    using assms(5) by (simp add: valid_text_def)
  note run = handler_no_try [OF handler_try_dev_new [OF assms(1) or_null_Some [OF assms(2,3)] assms(4) v assms(6)]]
  have again: "pool_query (InsertUser U) (insert_user U) (snd (handler req w)) =
           (Inr [], log_event (PoolQuery (InsertUser U)) (snd (handler req w)))"
    using assms(1) v
    by (simp add: run bootstrapped_simps
        insert_user_no_fault [where us = "rows_of (users w) @ [new_user U (clock w)]"]
        new_user_def)
  show ?thesis
    using again
    by (simp add: run new_user_def new_events_def bootstrapped_simps bootstrap_events_def)
qed

theorem dev_header_provisions_unseen_user_witness:
  "faults alice_store = [] \<and>
   headers (request_of [(''x-user-id'', ''bob'')]) ''x-user-id'' = Some ''bob'' \<and>
   ''bob'' \<notin> set (map uid (rows_of (users alice_store))) \<and>
   CHR 0x00 \<notin> set ''bob'' \<and> index_row_size alice_store ''bob'' \<le> 2704 \<and>
   fst (handler (request_of [(''x-user-id'', ''bob'')]) alice_store) =
     Inr \<lparr>status = 200,
      body = ProfileBody \<lparr>uid = ''bob'', token = None, email = None, created_at = Some 1000\<rparr>
               None None\<rparr> \<and>
   users (snd (handler (request_of [(''x-user-id'', ''bob'')]) alice_store)) =
     Some [alice, \<lparr>uid = ''bob'', token = None, email = None, created_at = Some 1000\<rparr>]"
proof -
  have 1: "faults alice_store = []"
    by (simp add: alice_store_def)
  have 2: "headers (request_of [(''x-user-id'', ''bob'')]) ''x-user-id'' = Some ''bob''"
    by (simp add: request_of_def)
  have 3: "''bob'' \<noteq> []"
    by simp
  have 4: "''bob'' \<notin> set (map uid (rows_of (users alice_store)))"
    by (simp add: alice_store_def rows_of_def alice_def)
  have 5: "CHR 0x00 \<notin> set ''bob''"
    by simp
  have 6: "index_row_size alice_store ''bob'' \<le> 2704"
    by (simp add: alice_store_def plain_row_size_def)
  show ?thesis
    using 1 2 4 5 6 dev_header_provisions_unseen_user [OF 1 2 3 4 5 6]
    by (simp add: alice_store_def rows_of_def alice_profile_def profile_type_of_def)
qed

text \<open>
  Claim C1 as stated fails for an identifier that the store refuses. An unseen id of 2700
  printable characters that does not compress makes an index row of 2712 bytes: the lookup
  finds nothing, the insert is refused, the answer is status 500 and no row has been
  inserted. An id with a NUL byte is refused at the first lookup, with status 500 as well.
\<close>

theorem dev_header_counterexample:
  "faults alice_store = [] \<and>
   headers (request_of [(''x-user-id'', long_id)]) ''x-user-id'' = Some long_id \<and>
   long_id \<noteq> [] \<and> length long_id = 2700 \<and>
   long_id \<notin> set (map uid (rows_of (users alice_store))) \<and>
   fst (handler (request_of [(''x-user-id'', long_id)]) alice_store) =
     Inr \<lparr>status = 500,
          body = ServerErrorBody ''Server error''
            ''index row size 2712 exceeds btree version 4 maximum 2704 for index \"users_pkey\"''\<rparr> \<and>
   users (snd (handler (request_of [(''x-user-id'', long_id)]) alice_store)) = Some [alice] \<and>
   headers (request_of [(''x-user-id'', [CHR ''a'', CHR 0x00])]) ''x-user-id'' =
     Some [CHR ''a'', CHR 0x00] \<and>
   [CHR ''a'', CHR 0x00] \<notin> set (map uid (rows_of (users alice_store))) \<and>
   fst (handler (request_of [(''x-user-id'', [CHR ''a'', CHR 0x00])]) alice_store) =
     Inr \<lparr>status = 500,
          body = ServerErrorBody ''Server error''
            ''invalid byte sequence for encoding \"UTF8\": 0x00''\<rparr>"
proof -
  let ?req = "request_of [(''x-user-id'', long_id)]"
  let ?req' = "request_of [(''x-user-id'', [CHR ''a'', CHR 0x00])]"
  have 1: "faults alice_store = []"
    by (simp add: alice_store_def)
  have 2: "or_null (headers ?req ''x-user-id'') = Some long_id"
    using long_id_facts(1) by (simp add: request_of_def or_null_def)
  have 3: "long_id \<notin> set (map uid (rows_of (users alice_store)))"
    using long_id_not_alice by (simp add: alice_store_def rows_of_def)
  have 4: "2704 < index_row_size alice_store long_id"
    by (simp add: alice_store_def long_id_facts)
  note run = handler_caught [OF handler_try_dev_too_large [OF 1 2 3 long_id_facts(2) 4]]
  have 5: "or_null (headers ?req' ''x-user-id'') = Some [CHR ''a'', CHR 0x00]"
    by (simp add: request_of_def or_null_def)
  have 6: "\<not> valid_text [CHR ''a'', CHR 0x00]"
    by (simp add: valid_text_def)
  note run' = handler_caught [OF handler_try_dev_nul [OF 1 5 6]]
  have 7: "[CHR ''a'', CHR 0x00] \<notin> set (map uid (rows_of (users alice_store)))"
    by (simp add: alice_store_def rows_of_def alice_def)
  have 8: "index_row_size alice_store long_id = 2712"
    by (simp add: alice_store_def long_id_facts)
  have a: "fst (handler ?req alice_store) =
     Inr \<lparr>status = 500,
          body = ServerErrorBody ''Server error''
            ''index row size 2712 exceeds btree version 4 maximum 2704 for index \"users_pkey\"''\<rparr>"
    by (simp add: run 8 server_error_def details_of_def index_row_too_large_def show_nat_2712)
  have b: "users (snd (handler ?req alice_store)) = Some [alice]"
    by (simp add: run log_event_simps bootstrapped_simps) (simp add: alice_store_def rows_of_def)
  have c: "fst (handler ?req' alice_store) =
     Inr \<lparr>status = 500,
          body = ServerErrorBody ''Server error''
            ''invalid byte sequence for encoding \"UTF8\": 0x00''\<rparr>"
    by (simp add: run' server_error_def details_of_def invalid_byte_sequence_def)
  have d: "headers ?req ''x-user-id'' = Some long_id"
    "headers ?req' ''x-user-id'' = Some [CHR ''a'', CHR 0x00]"
    by (simp_all add: request_of_def)
  from 1 3 7 long_id_facts(1,3) a b c d show ?thesis
    by blast
qed

text \<open>
  Claim C7. When no step fails and the \<open>x-user-id\<close> header is a non-empty string \<open>U\<close>
  that is the id of a row \<open>u\<close> of table \<open>users\<close> (ids being unique, and a stored id
  holding no NUL byte), the answer is status 200 with \<open>u\<close> itself, \<open>created_at\<close>
  included; table \<open>users\<close> and the rows of \<open>profiles\<close> are what they were, and no
  insert was sent.
\<close>

theorem dev_header_known_user_unchanged:
  assumes "faults w = []" and "headers req ''x-user-id'' = Some U" and "U \<noteq> []"
    and "users w = Some us" and "distinct (map uid us)" and "u \<in> set us" and "uid u = U"
    and "CHR 0x00 \<notin> set (uid u)"
  shows "fst (handler req w) =
           Inr \<lparr>status = 200,
            body = ProfileBody u
                     (find (\<lambda>p. user_id p = U) (rows_of (profiles w)))
                     (profile_type_of (find (\<lambda>p. user_id p = U) (rows_of (profiles w))))\<rparr> \<and>
         users (snd (handler req w)) = users w \<and>
         rows_of (profiles (snd (handler req w))) = rows_of (profiles w) \<and>
         new_events w (snd (handler req w)) =
           [PoolConnect, ClientQuery CreateUsersTable, ClientQuery CreateProfilesTable,
            ClientRelease, PoolQuery (SelectUserById U), PoolQuery (SelectProfileByUserId U)]"
proof -
  have v: "valid_text U"
    using assms(7,8) by (simp add: valid_text_def)
  have "find (\<lambda>r. uid r = U) (rows_of (users w)) = Some u"
    using find_distinct_uid [OF assms(5,6)] assms(4,7) by (simp add: rows_of_def)
  note run = handler_no_try [OF handler_try_dev_known [OF assms(1) or_null_Some [OF assms(2,3)] this v]]
  show ?thesis
    using assms(4)
    by (simp add: run new_events_def bootstrapped_simps bootstrap_events_def rows_of_def)
qed

theorem dev_header_known_user_unchanged_witness:
  "faults alice_store = [] \<and>
   headers (request_of [(''x-user-id'', ''alice'')]) ''x-user-id'' = Some ''alice'' \<and>
   users alice_store = Some [alice] \<and> distinct (map uid [alice]) \<and> alice \<in> set [alice] \<and>
   uid alice = ''alice'' \<and> CHR 0x00 \<notin> set (uid alice) \<and>
   fst (handler (request_of [(''x-user-id'', ''alice'')]) alice_store) =
     Inr \<lparr>status = 200, body = ProfileBody alice (Some alice_profile) (Some ''musician'')\<rparr> \<and>
   users (snd (handler (request_of [(''x-user-id'', ''alice'')]) alice_store)) = Some [alice]"
proof -
  have 1: "faults alice_store = []"
    by (simp add: alice_store_def)
  have 2: "headers (request_of [(''x-user-id'', ''alice'')]) ''x-user-id'' = Some ''alice''"
    by (simp add: request_of_def)
  have 3: "''alice'' \<noteq> []"
    by simp
  have 4: "users alice_store = Some [alice]"
    by (simp add: alice_store_def)
  have 5: "distinct (map uid [alice])"
    by simp
  have 6: "alice \<in> set [alice]"
    by simp
  have 7: "uid alice = ''alice''"
    by (simp add: alice_def)
  have 8: "CHR 0x00 \<notin> set (uid alice)"
    by (simp add: alice_def)
  show ?thesis
    using 1 2 4 7 8 dev_header_known_user_unchanged [OF 1 2 3 4 5 6 7 8]
    by (simp add: alice_store_def rows_of_def alice_profile_def profile_type_of_def)
qed

subsection \<open>The bearer token\<close>

text \<open>
  Claim C2, as the code has it. When no step fails, a request without \<open>x-user-id\<close>
  header whose \<open>authorization\<close> header is \<open>Bearer T\<close> with \<open>T\<close> not empty and without
  NUL byte, \<open>T\<close> being the token of no user row, is answered with status 401 and the
  invalid-credentials body; the rows of both tables are what they were, and the only
  statement after the bootstrap is the lookup of \<open>T\<close>.
\<close>

theorem bearer_unknown_token_rejected:
  assumes "faults w = []" and "headers req ''x-user-id'' = None"
    and "headers req ''authorization'' = Some (''Bearer '' @ T)" and "T \<noteq> []"
    and "Some T \<notin> set (map token (rows_of (users w)))"
    and "CHR 0x00 \<notin> set T"
  shows "fst (handler req w) =
           Inr \<lparr>status = 401, body = ErrorBody ''Invalid auth / user not found.''\<rparr> \<and>
         rows_of (users (snd (handler req w))) = rows_of (users w) \<and>
         rows_of (profiles (snd (handler req w))) = rows_of (profiles w) \<and>
         new_events w (snd (handler req w)) =
           [PoolConnect, ClientQuery CreateUsersTable, ClientQuery CreateProfilesTable,
            ClientRelease, PoolQuery (SelectUserByToken T)]"
proof -
  have v: "valid_text T"
    using assms(6) by (simp add: valid_text_def)
  have b: "bearer_of (or_empty (headers req ''authorization'')) = Some T"
    using assms(3) by (simp add: or_empty_def bearer_of_prefix del: append.simps)
  have "handler_try req w =
      (Inr invalid_auth,
       (bootstrapped w)\<lparr>trace := trace w @ bootstrap_events @ [PoolQuery (SelectUserByToken T)]\<rparr>)"
    using handler_try_bearer [OF assms(1) or_null_None [OF assms(2)] b assms(4) v]
    by (simp add: find_token_None [OF assms(5)] respond_None)
  note run = handler_no_try [OF this]
  show ?thesis
    by (simp add: run new_events_def bootstrapped_simps bootstrap_events_def invalid_auth_def
        rows_of_def)
qed

theorem bearer_unknown_token_rejected_witness:
  "faults alice_store = [] \<and>
   headers (request_of [(''authorization'', ''Bearer nobody'')]) ''x-user-id'' = None \<and>
   headers (request_of [(''authorization'', ''Bearer nobody'')]) ''authorization'' =
     Some (''Bearer '' @ ''nobody'') \<and>
   Some ''nobody'' \<notin> set (map token (rows_of (users alice_store))) \<and>
   CHR 0x00 \<notin> set ''nobody'' \<and>
   fst (handler (request_of [(''authorization'', ''Bearer nobody'')]) alice_store) =
     Inr \<lparr>status = 401, body = ErrorBody ''Invalid auth / user not found.''\<rparr> \<and>
   rows_of (users (snd (handler (request_of [(''authorization'', ''Bearer nobody'')]) alice_store)))
     = [alice]"
proof -
  have 1: "faults alice_store = []"
    by (simp add: alice_store_def)
  have 2: "headers (request_of [(''authorization'', ''Bearer nobody'')]) ''x-user-id'' = None"
    by (simp add: request_of_def)
  have 3: "headers (request_of [(''authorization'', ''Bearer nobody'')]) ''authorization'' =
      Some (''Bearer '' @ ''nobody'')"
    by (simp add: request_of_def)
  have 4: "''nobody'' \<noteq> []"
    by simp
  have 5: "Some ''nobody'' \<notin> set (map token (rows_of (users alice_store)))"
    by (simp add: alice_store_def rows_of_def alice_def)
  have 6: "CHR 0x00 \<notin> set ''nobody''"
    by simp
  show ?thesis
    using 1 2 3 5 6 bearer_unknown_token_rejected [OF 1 2 3 4 5 6]
    by (simp add: alice_store_def rows_of_def)
qed

text \<open>
  Claim C2 as stated fails for the empty token: the header \<open>Bearer \<close> (nothing after the
  space) has the form \<open>Bearer T\<close>, no user row has the empty token, and the answer is the
  missing-credentials body, not the invalid-credentials body. It fails as well for a token
  with a NUL byte, which the store refuses: the answer is status 500.
\<close>

theorem bearer_unknown_token_counterexample:
  "faults alice_store = [] \<and>
   headers (request_of [(''authorization'', ''Bearer '')]) ''x-user-id'' = None \<and>
   headers (request_of [(''authorization'', ''Bearer '')]) ''authorization'' =
     Some (''Bearer '' @ []) \<and>
   Some [] \<notin> set (map token (rows_of (users alice_store))) \<and>
   fst (handler (request_of [(''authorization'', ''Bearer '')]) alice_store) \<noteq>
     Inr \<lparr>status = 401, body = ErrorBody ''Invalid auth / user not found.''\<rparr> \<and>
   headers (request_of [(''authorization'', ''Bearer '' @ [CHR ''t'', CHR 0x00])]) ''x-user-id'' =
     None \<and>
   headers (request_of [(''authorization'', ''Bearer '' @ [CHR ''t'', CHR 0x00])])
     ''authorization'' = Some (''Bearer '' @ [CHR ''t'', CHR 0x00]) \<and>
   Some [CHR ''t'', CHR 0x00] \<notin> set (map token (rows_of (users alice_store))) \<and>
   fst (handler (request_of [(''authorization'', ''Bearer '' @ [CHR ''t'', CHR 0x00])])
          alice_store) =
     Inr \<lparr>status = 500,
          body = ServerErrorBody ''Server error''
            ''invalid byte sequence for encoding \"UTF8\": 0x00''\<rparr>"
proof -
  let ?req' = "request_of [(''authorization'', ''Bearer '' @ [CHR ''t'', CHR 0x00])]"
  have 1: "faults alice_store = []"
    by (simp add: alice_store_def)
  have "handler_try (request_of [(''authorization'', ''Bearer '')]) =
      await ensureSchema (\<lambda>_. return_io missing_auth)"
    by (rule handler_try_no_credentials)
       (simp_all add: request_of_def or_null_def or_empty_def bearer_of_def startsWith_def)
  then have a: "fst (handler (request_of [(''authorization'', ''Bearer '')]) alice_store) =
      Inr missing_auth"
    by (simp add: handler_def await_def ensureSchema_no_fault return_io_def alice_store_def)
  have 2: "or_null (headers ?req' ''x-user-id'') = None"
    by (simp add: request_of_def or_null_def)
  have 3: "bearer_of (or_empty (headers ?req' ''authorization'')) = Some [CHR ''t'', CHR 0x00]"
    by (simp add: request_of_def or_empty_def bearer_of_def startsWith_def)
  have 4: "[CHR ''t'', CHR 0x00] \<noteq> []"
    by simp
  have 5: "\<not> valid_text [CHR ''t'', CHR 0x00]"
    by (simp add: valid_text_def)
  note run' = handler_caught [OF handler_try_bearer_nul [OF 1 2 3 4 5]]
  have a': "fst (handler (request_of [(''authorization'', ''Bearer '')]) alice_store) \<noteq>
     Inr \<lparr>status = 401, body = ErrorBody ''Invalid auth / user not found.''\<rparr>"
    by (simp add: a missing_auth_def)
  have c: "fst (handler ?req' alice_store) =
     Inr \<lparr>status = 500,
          body = ServerErrorBody ''Server error''
            ''invalid byte sequence for encoding \"UTF8\": 0x00''\<rparr>"
    using run' by (simp add: server_error_def details_of_def invalid_byte_sequence_def)
  have d: "headers (request_of [(''authorization'', ''Bearer '')]) ''x-user-id'' = None"
    "headers (request_of [(''authorization'', ''Bearer '')]) ''authorization'' =
       Some (''Bearer '' @ [])"
    "headers ?req' ''x-user-id'' = None"
    "headers ?req' ''authorization'' = Some (''Bearer '' @ [CHR ''t'', CHR 0x00])"
    by (simp_all add: request_of_def)
  have e: "Some [] \<notin> set (map token (rows_of (users alice_store)))"
    "Some [CHR ''t'', CHR 0x00] \<notin> set (map token (rows_of (users alice_store)))"
    by (simp_all add: alice_store_def rows_of_def alice_def)
  from 1 a' c d e show ?thesis
    by blast
qed

subsection \<open>No credentials\<close>

text \<open>
  Claim C3, as the code has it. When no step fails, a request with neither a
  non-empty \<open>x-user-id\<close> header nor an \<open>authorization\<close> header that starts with
  \<open>Bearer \<close> is answered with status 401 and the missing-credentials body. The handler
  has sent the two statements of the bootstrap and nothing else: the rows of both tables
  are what they were, a table that existed is untouched, and a table that did not exist
  has been created empty.
\<close>

theorem no_credentials_rejected:
  assumes "faults w = []"
    and "headers req ''x-user-id'' = None \<or> headers req ''x-user-id'' = Some []"
    and "headers req ''authorization'' = None \<or>
         (\<exists>h. headers req ''authorization'' = Some h \<and> take 7 h \<noteq> ''Bearer '')"
  shows "fst (handler req w) =
           Inr \<lparr>status = 401,
            body = ErrorBody ''Missing auth. Provide x-user-id (dev) or Authorization: Bearer <token>.''\<rparr> \<and>
         rows_of (users (snd (handler req w))) = rows_of (users w) \<and>
         rows_of (profiles (snd (handler req w))) = rows_of (profiles w) \<and>
         users (snd (handler req w)) \<noteq> None \<and> profiles (snd (handler req w)) \<noteq> None \<and>
         (users w \<noteq> None \<longrightarrow> users (snd (handler req w)) = users w) \<and>
         (profiles w \<noteq> None \<longrightarrow> profiles (snd (handler req w)) = profiles w) \<and>
         new_events w (snd (handler req w)) =
           [PoolConnect, ClientQuery CreateUsersTable, ClientQuery CreateProfilesTable,
            ClientRelease]"
proof -
  have nodev: "or_null (headers req ''x-user-id'') = None"
    using assms(2) by (auto simp add: or_null_def)
  have "bearer_of (or_empty (headers req ''authorization'')) = None"
  proof (cases "headers req ''authorization''")
    case None
    then show ?thesis by (simp add: or_empty_def bearer_of_def startsWith_def)
  next
    case (Some h)
    with assms(3) have "take 7 h \<noteq> ''Bearer ''"
      by auto
    then have "bearer_of h = None"
      by (rule bearer_of_None)
    with Some show ?thesis by (simp add: or_empty_def)
  qed
  then have "handler_try req = await ensureSchema (\<lambda>_. return_io missing_auth)"
    using handler_try_no_credentials [OF nodev] by simp
  then have "handler_try req w = (Inr missing_auth, bootstrapped w)"
    using assms(1) by (simp add: await_def ensureSchema_no_fault return_io_def)
  note run = handler_no_try [OF this]
  show ?thesis
    by (auto simp add: run new_events_def bootstrapped_simps bootstrap_events_def missing_auth_def
        rows_of_def)
qed

theorem no_credentials_rejected_witness:
  "faults alice_store = [] \<and>
   headers (request_of [(''authorization'', ''Basic abc'')]) ''x-user-id'' = None \<and>
   headers (request_of [(''authorization'', ''Basic abc'')]) ''authorization'' =
     Some ''Basic abc'' \<and>
   take 7 ''Basic abc'' \<noteq> ''Bearer '' \<and>
   fst (handler (request_of [(''authorization'', ''Basic abc'')]) alice_store) =
     Inr \<lparr>status = 401,
      body = ErrorBody ''Missing auth. Provide x-user-id (dev) or Authorization: Bearer <token>.''\<rparr> \<and>
   users (snd (handler (request_of [(''authorization'', ''Basic abc'')]) alice_store)) =
     Some [alice]"
proof -
  have 1: "faults alice_store = []"
    by (simp add: alice_store_def)
  have 2: "headers (request_of [(''authorization'', ''Basic abc'')]) ''x-user-id'' = None"
    by (simp add: request_of_def)
  have 3: "headers (request_of [(''authorization'', ''Basic abc'')]) ''authorization'' =
      Some ''Basic abc''"
    by (simp add: request_of_def)
  have 4: "take 7 ''Basic abc'' \<noteq> ''Bearer ''"
    by simp
  have 5: "users alice_store = Some [alice]"
    by (simp add: alice_store_def)
  have x2: "headers (request_of [(''authorization'', ''Basic abc'')]) ''x-user-id'' = None \<or>
      headers (request_of [(''authorization'', ''Basic abc'')]) ''x-user-id'' = Some []"
    using 2 by (rule disjI1)
  have x3: "headers (request_of [(''authorization'', ''Basic abc'')]) ''authorization'' = None \<or>
      (\<exists>h. headers (request_of [(''authorization'', ''Basic abc'')]) ''authorization'' = Some h \<and>
           take 7 h \<noteq> ''Bearer '')"
    using 3 4 by blast
  show ?thesis
    using 1 2 3 4 5 no_credentials_rejected [OF 1 x2 x3]
    by simp
qed

text \<open>
  Claim C3 as stated fails on a store without tables: the request without headers is
  answered with the missing-credentials body, and the store has been written to, since
  table \<open>users\<close> exists afterwards and did not before.
\<close>

theorem no_credentials_counterexample:
  "faults fresh_store = [] \<and>
   headers (request_of []) ''x-user-id'' = None \<and>
   headers (request_of []) ''authorization'' = None \<and>
   fst (handler (request_of []) fresh_store) = Inr missing_auth \<and>
   users fresh_store = None \<and>
   users (snd (handler (request_of []) fresh_store)) = Some [] \<and>
   ClientQuery CreateUsersTable \<in> set (new_events fresh_store (snd (handler (request_of []) fresh_store)))"
proof -
  have "handler_try (request_of []) = await ensureSchema (\<lambda>_. return_io missing_auth)"
    by (rule handler_try_no_credentials)
       (simp_all add: request_of_def or_null_def or_empty_def bearer_of_def startsWith_def)
  then have "handler (request_of []) fresh_store = (Inr missing_auth, bootstrapped fresh_store)"
    by (simp add: handler_def await_def ensureSchema_no_fault return_io_def fresh_store_def)
  then show ?thesis
    by (simp add: bootstrapped_def fresh_store_def rows_of_def request_of_def new_events_def
        bootstrap_events_def)
qed

subsection \<open>Which operations look a token up\<close>

lemma quietI:
  "(\<And>w. \<exists>evs. trace (snd (m w)) = trace w @ evs \<and> (\<forall>ev\<in>set evs. \<not> is_token_lookup ev))
   \<Longrightarrow> quiet m"
  by (simp add: quiet_def)

lemma quietD:
  "quiet m \<Longrightarrow> \<exists>evs. trace (snd (m w)) = trace w @ evs \<and> (\<forall>ev\<in>set evs. \<not> is_token_lookup ev)"
  by (simp add: quiet_def)

lemma quiet_return: "quiet (return_io x)"
  by (simp add: quiet_def return_io_def)

lemma quiet_await:
  assumes "quiet m" and "\<And>x. quiet (k x)"
  shows "quiet (await m k)"
proof (rule quietI)
  fix w
  obtain r w1 where m: "m w = (r, w1)"
    by (cases "m w")
  from quietD [OF assms(1), of w] m obtain evs1
    where 1: "trace w1 = trace w @ evs1" "\<forall>ev\<in>set evs1. \<not> is_token_lookup ev"
    by auto
  show "\<exists>evs. trace (snd (await m k w)) = trace w @ evs \<and> (\<forall>ev\<in>set evs. \<not> is_token_lookup ev)"
  proof (cases r)
    case (Inl e)
    with m 1 show ?thesis by (simp add: await_def)
  next
    case (Inr x)
    from quietD [OF assms(2), of x w1] obtain evs2
      where 2: "trace (snd (k x w1)) = trace w1 @ evs2" "\<forall>ev\<in>set evs2. \<not> is_token_lookup ev"
      by auto
    have "trace (snd (await m k w)) = trace w @ (evs1 @ evs2)"
      using m Inr 1 2 by (simp add: await_def)
    moreover have "\<forall>ev\<in>set (evs1 @ evs2). \<not> is_token_lookup ev"
      using 1 2 by auto
    ultimately show ?thesis by blast
  qed
qed

lemma quiet_round_trip:
  assumes "\<not> is_token_lookup ev" and "\<And>w. trace (snd (act w)) = trace w"
  shows "quiet (round_trip ev act)"
proof (rule quietI)
  fix w
  have "trace (snd (round_trip ev act w)) = trace w @ [ev]"
    using assms(2)
    by (simp add: round_trip_def fallible_def log_event_def split: list.splits option.splits)
  with assms(1) show "\<exists>evs. trace (snd (round_trip ev act w)) = trace w @ evs \<and>
      (\<forall>ev\<in>set evs. \<not> is_token_lookup ev)"
    by auto
qed

lemma quiet_try_finally:
  assumes "quiet act" and "quiet fin"
  shows "quiet (try_finally act fin)"
proof (rule quietI)
  fix w
  obtain r w1 where b: "act w = (r, w1)"
    by (cases "act w")
  obtain r2 w2 where f: "fin w1 = (r2, w2)"
    by (cases "fin w1")
  from quietD [OF assms(1), of w] b obtain evs1
    where 1: "trace w1 = trace w @ evs1" "\<forall>ev\<in>set evs1. \<not> is_token_lookup ev"
    by auto
  from quietD [OF assms(2), of w1] f obtain evs2
    where 2: "trace w2 = trace w1 @ evs2" "\<forall>ev\<in>set evs2. \<not> is_token_lookup ev"
    by auto
  have "trace (snd (try_finally act fin w)) = trace w @ (evs1 @ evs2)"
    using b f 1 2 by (simp add: try_finally_def split: sum.splits)
  moreover have "\<forall>ev\<in>set (evs1 @ evs2). \<not> is_token_lookup ev"
    using 1 2 by auto
  ultimately show "\<exists>evs. trace (snd (try_finally act fin w)) = trace w @ evs \<and>
      (\<forall>ev\<in>set evs. \<not> is_token_lookup ev)"
    by blast
qed

lemma quiet_client_release: "quiet client_release"
  by (rule quietI) (simp add: client_release_def log_event_def is_token_lookup_def)

lemma quiet_ensureSchema: "quiet ensureSchema"
  unfolding ensureSchema_def pool_connect_def client_query_def
  by (intro quiet_await quiet_try_finally quiet_round_trip quiet_client_release)
     (simp_all add: is_token_lookup_def create_users_table_def create_profiles_table_def
       split: option.splits)

lemma quiet_getUserById: "quiet (getUserById U)"
  unfolding getUserById_def pool_query_def
  by (intro quiet_await quiet_round_trip quiet_return)
     (simp_all add: is_token_lookup_def select_user_by_id_def split: option.splits)

lemma quiet_getProfileForUser: "quiet (getProfileForUser U)"
  unfolding getProfileForUser_def pool_query_def
  by (intro quiet_await quiet_round_trip quiet_return)
     (simp_all add: is_token_lookup_def select_profile_by_user_id_def split: option.splits)

lemma quiet_insert: "quiet (pool_query (InsertUser U) (insert_user U))"
  unfolding pool_query_def
  by (intro quiet_round_trip)
     (simp_all add: is_token_lookup_def insert_user_def split: option.splits)

lemma quiet_res_json: "quiet (res_json r)"
  by (rule quietI)
     (simp add: res_json_def fallible_def return_io_def split: list.splits option.splits)

lemma quiet_respond: "quiet (respond user)"
proof (cases user)
  case None
  then show ?thesis by (simp add: respond_def quiet_res_json)
next
  case (Some u)
  then show ?thesis
    by (simp add: respond_def quiet_await quiet_getProfileForUser quiet_res_json)
qed

lemma quiet_dev_path:
  assumes "or_null (headers req ''x-user-id'') = Some d"
  shows "quiet (handler_try req)"
proof -
  have "quiet (await (getUserById d) (\<lambda>user.
                case user of
                  Some u \<Rightarrow> respond (Some u)
                | None \<Rightarrow>
                    await (pool_query (InsertUser d) (insert_user d)) (\<lambda>_.
                      await (getUserById d) respond)))"
    by (intro quiet_await quiet_getUserById)
       (simp add: quiet_respond quiet_await quiet_insert quiet_getUserById split: option.splits)
  then show ?thesis
    using assms by (simp add: handler_try_def quiet_await quiet_ensureSchema)
qed

lemma quiet_no_token:
  assumes "or_null (headers req ''x-user-id'') = None"
    and "bearer_of (or_empty (headers req ''authorization'')) = None \<or>
         bearer_of (or_empty (headers req ''authorization'')) = Some []"
  shows "quiet (handler_try req)"
  by (simp add: handler_try_no_credentials [OF assms] quiet_await quiet_ensureSchema quiet_return)

lemma quiet_handler:
  assumes "quiet (handler_try req)"
  shows "\<forall>ev\<in>set (new_events w (snd (handler req w))). \<not> is_token_lookup ev"
proof -
  obtain r w1 where t: "handler_try req w = (r, w1)"
    by (cases "handler_try req w")
  from quietD [OF assms, of w] t obtain evs
    where 1: "trace w1 = trace w @ evs" "\<forall>ev\<in>set evs. \<not> is_token_lookup ev"
    by auto
  show ?thesis
  proof (cases r)
    case (Inl e)
    then have "new_events w (snd (handler req w)) = evs @ [ConsoleError e]"
      using t 1 by (simp add: handler_caught new_events_def log_event_def)
    with 1 show ?thesis by (simp add: is_token_lookup_def)
  next
    case (Inr x)
    then have "new_events w (snd (handler req w)) = evs"
      using t 1 by (simp add: handler_def new_events_def)
    with 1 show ?thesis by simp
  qed
qed

subsection \<open>Every failure of a step is accounted for\<close>

lemma passed_same: "faults w' = faults w \<Longrightarrow> passed w w'"
  unfolding passed_def by (rule exI [of _ 0]) simp

lemma passed_trans:
  assumes "passed w w1" and "passed w1 w2"
  shows "passed w w2"
proof -
  from assms obtain n m
    where "faults w = replicate n None @ faults w1" "faults w1 = replicate m None @ faults w2"
    unfolding passed_def by blast
  then have "faults w = replicate (n + m) None @ faults w2"
    by (simp add: replicate_add)
  then show ?thesis
    unfolding passed_def by blast
qed

lemma passed_failed:
  assumes "passed w w1" and "failed w1 e w2"
  shows "failed w e w2"
proof -
  from assms obtain n m
    where "faults w = replicate n None @ faults w1"
      "faults w1 = replicate m None @ Some e # faults w2"
    unfolding passed_def failed_def by blast
  then have "faults w = replicate (n + m) None @ Some e # faults w2"
    by (simp add: replicate_add)
  then show ?thesis
    unfolding failed_def by blast
qed

lemma accounted_same_faults:
  "accounted w (r, w1) \<Longrightarrow> faults w2 = faults w1 \<Longrightarrow> accounted w (r, w2)"
  by (cases r) (simp_all add: accounted_def passed_def failed_def)

lemma accounted_Inl:
  "accounted w (Inl e, w') \<longleftrightarrow> failed w e w' \<or> (refusal e \<and> passed w w')"
  by (simp add: accounted_def)

lemma accounted_Inr: "accounted w (Inr x, w') \<longleftrightarrow> passed w w'"
  by (simp add: accounted_def)

lemma accounted_return: "accounted w (return_io x w)"
  by (simp add: accounted_def return_io_def passed_same)

lemma accounted_await:
  assumes "accounted w (m w)" and "\<And>x w1. m w = (Inr x, w1) \<Longrightarrow> accounted w1 (k x w1)"
  shows "accounted w (await m k w)"
proof -
  obtain r w1 where m: "m w = (r, w1)"
    by (cases "m w")
  show ?thesis
  proof (cases r)
    case (Inl e)
    with m assms(1) show ?thesis by (simp add: await_def accounted_def)
  next
    case (Inr x)
    with m assms(1) have p: "passed w w1"
      by (simp add: accounted_def)
    from assms(2) m Inr have k: "accounted w1 (k x w1)"
      by simp
    obtain r2 w2 where k2: "k x w1 = (r2, w2)"
      by (cases "k x w1")
    have "accounted w (r2, w2)"
    proof (cases r2)
      case (Inl e)
      with k k2 have "failed w1 e w2 \<or> (refusal e \<and> passed w1 w2)"
        by (simp add: accounted_def)
      with p have "failed w e w2 \<or> (refusal e \<and> passed w w2)"
        by (auto intro: passed_failed passed_trans)
      with Inl show ?thesis by (simp add: accounted_def)
    next
      case (Inr y)
      with k k2 have "passed w1 w2" by (simp add: accounted_def)
      with p Inr show ?thesis by (auto simp add: accounted_def intro: passed_trans)
    qed
    with m Inr k2 show ?thesis by (simp add: await_def)
  qed
qed

lemma refusal_simps:
  "refusal invalid_byte_sequence"
  "2704 < n \<Longrightarrow> refusal (index_row_too_large n)"
  by (auto simp add: refusal_def)

lemma accounted_fallible:
  assumes "\<And>v. users v = users w \<Longrightarrow> profiles v = profiles w \<Longrightarrow>
      index_row_size v = index_row_size w \<Longrightarrow>
      (\<exists>x. fst (act v) = Inr x) \<or> (\<exists>e. fst (act v) = Inl e \<and> refusal e)"
    and "\<And>v. faults (snd (act v)) = faults v"
  shows "accounted w (fallible act w)"
proof -
  have through: "accounted w (act v)"
    if "users v = users w" "profiles v = profiles w" "index_row_size v = index_row_size w"
      "passed w v" for v
  proof -
    have "passed w (snd (act v))"
      using that(4) by (simp add: passed_def assms(2))
    moreover from assms(1) [OF that(1,2,3)]
    have "(\<exists>x. fst (act v) = Inr x) \<or> (\<exists>e. fst (act v) = Inl e \<and> refusal e)" .
    ultimately show ?thesis
      by (cases "act v") (auto simp add: accounted_def)
  qed
  show ?thesis
  proof (cases "faults w")
    case Nil
    have "accounted w (act w)"
      by (rule through) (simp_all add: passed_same)
    with Nil show ?thesis
      by (simp add: fallible_def)
  next
    case (Cons f fs)
    show ?thesis
    proof (cases f)
      case None
      let ?v = "w\<lparr>faults := fs\<rparr>"
      have "faults w = replicate 1 None @ faults ?v"
        using Cons None by simp
      then have "passed w ?v"
        unfolding passed_def by blast
      then have "accounted w (act ?v)"
        by (intro through) simp_all
      with Cons None show ?thesis
        by (simp add: fallible_def)
    next
      case (Some e)
      let ?v = "w\<lparr>faults := fs\<rparr>"
      have "faults w = replicate 0 None @ Some e # faults ?v"
        using Cons Some by simp
      then have "failed w e ?v"
        unfolding failed_def by blast
      with Cons Some show ?thesis
        by (simp add: fallible_def accounted_def)
    qed
  qed
qed

lemma accounted_log_event: "accounted (log_event ev w) out \<Longrightarrow> accounted w out"
  by (cases out) (simp add: accounted_def passed_def failed_def log_event_simps split: sum.splits)

lemma accounted_round_trip:
  assumes "\<And>v. users v = users w \<Longrightarrow> profiles v = profiles w \<Longrightarrow>
      index_row_size v = index_row_size w \<Longrightarrow>
      (\<exists>x. fst (act v) = Inr x) \<or> (\<exists>e. fst (act v) = Inl e \<and> refusal e)"
    and "\<And>v. faults (snd (act v)) = faults v"
  shows "accounted w (round_trip ev act w)"
  unfolding round_trip_def
proof (rule accounted_log_event, rule accounted_fallible)
  fix v :: world
  assume "users v = users (log_event ev w)" "profiles v = profiles (log_event ev w)"
    "index_row_size v = index_row_size (log_event ev w)"
  then show "(\<exists>x. fst (act v) = Inr x) \<or> (\<exists>e. fst (act v) = Inl e \<and> refusal e)"
    by (intro assms(1)) (simp_all add: log_event_simps)
next
  fix v :: world
  show "faults (snd (act v)) = faults v"
    by (rule assms(2))
qed

lemma accounted_getUserById:
  assumes "users w \<noteq> None"
  shows "accounted w (getUserById U w)"
  unfolding getUserById_def pool_query_def
  using assms
  by (intro accounted_await accounted_round_trip accounted_return)
     (auto simp add: select_user_by_id_def refusal_simps split: option.splits)

lemma tables_getUserById:
  "getUserById U w = (r, w') \<Longrightarrow> users w' = users w \<and> profiles w' = profiles w"
  by (auto simp add: getUserById_def pool_query_def await_def return_io_def round_trip_def
      fallible_def log_event_simps select_user_by_id_def
      split: list.splits option.splits sum.splits prod.splits if_splits)

lemma accounted_getUserByToken:
  assumes "users w \<noteq> None"
  shows "accounted w (getUserByToken T w)"
  unfolding getUserByToken_def pool_query_def
  using assms
  by (intro accounted_await accounted_round_trip accounted_return)
     (auto simp add: select_user_by_token_def refusal_simps split: option.splits)

lemma tables_getUserByToken:
  "getUserByToken T w = (r, w') \<Longrightarrow> users w' = users w \<and> profiles w' = profiles w"
  by (auto simp add: getUserByToken_def pool_query_def await_def return_io_def round_trip_def
      fallible_def log_event_simps select_user_by_token_def
      split: list.splits option.splits sum.splits prod.splits if_splits)

lemma accounted_getProfileForUser:
  assumes "profiles w \<noteq> None"
  shows "accounted w (getProfileForUser U w)"
  unfolding getProfileForUser_def pool_query_def
  using assms
  by (intro accounted_await accounted_round_trip accounted_return)
     (auto simp add: select_profile_by_user_id_def refusal_simps split: option.splits)

lemma accounted_insert:
  assumes "users w \<noteq> None"
  shows "accounted w (pool_query (InsertUser U) (insert_user U) w)"
  unfolding pool_query_def
  using assms
  by (intro accounted_round_trip)
     (auto simp add: insert_user_def refusal_simps split: option.splits)

lemma tables_insert:
  "pool_query (InsertUser U) (insert_user U) w = (r, w') \<Longrightarrow>
   users w \<noteq> None \<Longrightarrow> users w' \<noteq> None \<and> profiles w' = profiles w"
  by (auto simp add: pool_query_def round_trip_def fallible_def log_event_simps insert_user_def
      split: list.splits option.splits if_splits)

lemma accounted_try_finally_release:
  assumes "accounted w (act w)"
  shows "accounted w (try_finally act client_release w)"
proof -
  obtain r w1 where a: "act w = (r, w1)"
    by (cases "act w")
  have "try_finally act client_release w =
      (r, (log_event ClientRelease w1)\<lparr>checked_out := checked_out w1 - 1\<rparr>)"
    by (simp add: try_finally_def a client_release_def)
  moreover have "accounted w (r, (log_event ClientRelease w1)\<lparr>checked_out := checked_out w1 - 1\<rparr>)"
    using assms a by (auto intro: accounted_same_faults [of w r w1] simp add: log_event_simps)
  ultimately show ?thesis by simp
qed

lemma users_after_create:
  "client_query CreateUsersTable create_users_table w = (Inr x, w') \<Longrightarrow> users w' \<noteq> None"
  by (auto simp add: client_query_def round_trip_def fallible_def log_event_simps
      create_users_table_def split: list.splits option.splits)

lemma accounted_ensureSchema: "accounted w (ensureSchema w)"
  unfolding ensureSchema_def pool_connect_def
proof (intro accounted_await accounted_try_finally_release)
  show "accounted w
     (round_trip PoolConnect (\<lambda>w. (Inr (), w\<lparr>checked_out := Suc (checked_out w)\<rparr>)) w)"
    by (intro accounted_round_trip) simp_all
next
  fix w1
  show "accounted w1 (client_query CreateUsersTable create_users_table w1)"
    unfolding client_query_def
    by (intro accounted_round_trip) (simp_all add: create_users_table_def split: option.splits)
next
  fix w1 x w2
  assume "client_query CreateUsersTable create_users_table w1 = (Inr x, w2)"
  then have "users w2 \<noteq> None"
    by (rule users_after_create)
  then show "accounted w2 (client_query CreateProfilesTable create_profiles_table w2)"
    unfolding client_query_def
    by (intro accounted_round_trip)
       (auto simp add: create_profiles_table_def split: option.splits)
qed

lemma accounted_res_json: "accounted w (res_json r w)"
proof (cases "holds_rows (body r)")
  case True
  have "accounted w (fallible (return_io r) w)"
    by (rule accounted_fallible) (simp_all add: return_io_def)
  with True show ?thesis by (simp add: res_json_def)
next
  case False
  then show ?thesis by (simp add: res_json_def accounted_return)
qed

lemma res_json_Inr: "res_json r w = (Inr x, w') \<Longrightarrow> x = r"
  by (auto simp add: res_json_def fallible_def return_io_def
      split: if_splits list.splits option.splits)

lemma accounted_respond:
  assumes "profiles w \<noteq> None"
  shows "accounted w (respond user w)"
proof (cases user)
  case None
  then show ?thesis by (simp add: respond_def accounted_res_json)
next
  case (Some u)
  then show ?thesis
    using assms
    by (simp add: respond_def accounted_await accounted_getProfileForUser accounted_res_json)
qed

lemma accounted_handler_try: "accounted w (handler_try req w)"
  unfolding handler_try_def
proof (rule accounted_await [where m = ensureSchema, OF accounted_ensureSchema])
  fix x w1
  assume "ensureSchema w = (Inr x, w1)"
  then have t: "users w1 \<noteq> None" "profiles w1 \<noteq> None"
    using ensureSchema_tables by blast+
  show "accounted w1
          ((let devUserId = or_null (headers req ''x-user-id'');
                authHeader = or_empty (headers req ''authorization'');
                bearer = bearer_of authHeader
            in case devUserId of
                 None \<Rightarrow>
                   (case bearer of
                      None \<Rightarrow> res_json missing_auth
                    | Some b \<Rightarrow>
                        if b \<noteq> [] then await (getUserByToken b) respond
                        else res_json missing_auth)
               | Some d \<Rightarrow>
                   await (getUserById d) (\<lambda>user.
                     case user of
                       None \<Rightarrow>
                         await (pool_query (InsertUser d) (insert_user d)) (\<lambda>_.
                           await (getUserById d) respond)
                     | Some u \<Rightarrow> respond (Some u))) w1)"
  proof (cases "or_null (headers req ''x-user-id'')")
    case None
    have "accounted w1 (await (getUserByToken b) respond w1)" for b
    proof (rule accounted_await [where m = "getUserByToken b", OF accounted_getUserByToken [OF t(1)]])
      fix user w2
      assume "getUserByToken b w1 = (Inr user, w2)"
      then have "profiles w2 \<noteq> None"
        using tables_getUserByToken t by metis
      then show "accounted w2 (respond user w2)"
        by (rule accounted_respond)
    qed
    with None show ?thesis
      by (simp add: accounted_res_json split: option.splits)
  next
    case (Some d)
    have "accounted w1 (await (getUserById d) (\<lambda>user.
                     case user of
                       None \<Rightarrow>
                         await (pool_query (InsertUser d) (insert_user d)) (\<lambda>_.
                           await (getUserById d) respond)
                     | Some u \<Rightarrow> respond (Some u)) w1)"
    proof (rule accounted_await [where m = "getUserById d", OF accounted_getUserById [OF t(1)]])
      fix user w2
      assume "getUserById d w1 = (Inr user, w2)"
      then have t2: "users w2 \<noteq> None" "profiles w2 \<noteq> None"
        using tables_getUserById t by metis+
      have "accounted w2 (await (pool_query (InsertUser d) (insert_user d)) (\<lambda>_.
                           await (getUserById d) respond) w2)"
      proof (rule accounted_await [where m = "pool_query (InsertUser d) (insert_user d)", OF accounted_insert [OF t2(1)]])
        fix rows w3
        assume "pool_query (InsertUser d) (insert_user d) w2 = (Inr rows, w3)"
        then have t3: "users w3 \<noteq> None" "profiles w3 \<noteq> None"
          using tables_insert [of d w2 "Inr rows" w3] t2 by simp_all
        show "accounted w3 (await (getUserById d) respond w3)"
        proof (rule accounted_await [where m = "getUserById d", OF accounted_getUserById [OF t3(1)]])
          fix user' w4
          assume "getUserById d w3 = (Inr user', w4)"
          then have "profiles w4 \<noteq> None"
            using tables_getUserById t3 by metis
          then show "accounted w4 (respond user' w4)"
            by (rule accounted_respond)
        qed
      qed
      then show "accounted w2
          ((case user of
              None \<Rightarrow>
                await (pool_query (InsertUser d) (insert_user d)) (\<lambda>_.
                  await (getUserById d) respond)
            | Some u \<Rightarrow> respond (Some u)) w2)"
        using t2 by (simp add: accounted_respond split: option.splits)
    qed
    with Some show ?thesis
      by simp
  qed
qed

lemma await_Inr:
  "await m k w = (Inr y, w') \<Longrightarrow> \<exists>x w1. m w = (Inr x, w1) \<and> k x w1 = (Inr y, w')"
  by (auto simp add: await_def split: prod.splits sum.splits)

lemma respond_Inr:
  assumes "respond user w = (Inr resp, w')"
  shows "resp = invalid_auth \<or> (\<exists>u p. resp = \<lparr>status = 200, body = ProfileBody u p (profile_type_of p)\<rparr>)"
proof (cases user)
  case None
  with assms show ?thesis by (auto simp add: respond_def dest: res_json_Inr)
next
  case (Some u)
  with assms obtain p w1 where
    "res_json \<lparr>status = 200, body = ProfileBody u p (profile_type_of p)\<rparr> w1 = (Inr resp, w')"
    by (auto simp add: respond_def dest!: await_Inr)
  then show ?thesis
    by (auto dest: res_json_Inr)
qed

lemma handler_try_Inr:
  assumes "handler_try req w = (Inr resp, w')"
  shows "resp = missing_auth \<or> resp = invalid_auth \<or>
         (\<exists>u p. resp = \<lparr>status = 200, body = ProfileBody u p (profile_type_of p)\<rparr>)"
proof -
  from assms obtain w1 where k:
    "(case or_null (headers req ''x-user-id'') of
        None \<Rightarrow>
          (case bearer_of (or_empty (headers req ''authorization'')) of
             None \<Rightarrow> res_json missing_auth
           | Some b \<Rightarrow>
               if b \<noteq> [] then await (getUserByToken b) respond else res_json missing_auth)
      | Some d \<Rightarrow>
          await (getUserById d) (\<lambda>user.
            case user of
              None \<Rightarrow>
                await (pool_query (InsertUser d) (insert_user d)) (\<lambda>_.
                  await (getUserById d) respond)
            | Some u \<Rightarrow> respond (Some u))) w1 = (Inr resp, w')"
    unfolding handler_try_def by (auto simp add: Let_def dest!: await_Inr)
  show ?thesis
  proof (cases "or_null (headers req ''x-user-id'')")
    case None
    with k show ?thesis
      by (auto split: option.splits if_splits
          dest!: await_Inr dest: respond_Inr res_json_Inr)
  next
    case (Some d)
    with k obtain user w2 where
      "(case user of
              None \<Rightarrow>
                await (pool_query (InsertUser d) (insert_user d)) (\<lambda>_.
                  await (getUserById d) respond)
            | Some u \<Rightarrow> respond (Some u)) w2 = (Inr resp, w')"
      by (auto dest!: await_Inr)
    then show ?thesis
      by (cases user) (auto dest!: await_Inr dest: respond_Inr)
  qed
qed

lemma bootstrap_failure:
  assumes "n < 3" and "faults w = replicate n None @ Some e # fs"
  shows "fst (handler req w) = Inr (server_error e)"
proof -
  obtain r w1 where s: "ensureSchema w = (r, w1)"
    by (cases "ensureSchema w")
  from assms(1) have "n = 0 \<or> n = 1 \<or> n = 2"
    by arith
  with assms(2) have "faults w = Some e # fs \<or> faults w = None # Some e # fs \<or>
      faults w = None # None # Some e # fs"
    by (auto simp add: numeral_2_eq_2)
  with ensureSchema_outcome [OF s] have "r = Inl e"
    by auto
  with s show ?thesis
    by (simp add: handler_def handler_try_def await_def res_json_simps return_io_def)
qed

subsection \<open>The profile of the resolved user\<close>

lemma handler_cong: "handler_try req = handler_try req' \<Longrightarrow> handler req w = handler req' w"
  by (simp add: handler_def)

lemma handler_try_dev_ignores_authorization:
  assumes "or_null (headers req ''x-user-id'') = Some d"
  shows "handler_try req = handler_try (req\<lparr>headers := (headers req)(''authorization'' := None)\<rparr>)"
  using assms by (simp add: handler_try_def)

text \<open>
  Claim C4. When no step fails and the request resolves a user \<open>u\<close> (through a non-empty
  \<open>x-user-id\<close> header \<open>U\<close> that the store accepts: the row with id \<open>U\<close>, or the row just
  inserted for \<open>U\<close>; or, without such a header, through a non-empty bearer token: the row
  with that token), the handler reads the profile row of \<open>u\<close> last and answers with
  status 200 and the body \<open>{user, profile, profile_type}\<close>: \<open>profile\<close> is that row or
  null, and \<open>profile_type\<close> is its field or null when there is no row. The profile rows
  are not changed.
\<close>

theorem resolved_user_gets_profile:
  assumes "faults w = []"
    and "(headers req ''x-user-id'' = Some U \<and> U \<noteq> [] \<and> CHR 0x00 \<notin> set U \<and>
          (U \<notin> set (map uid (rows_of (users w))) \<longrightarrow> index_row_size w U \<le> 2704) \<and>
          u = (case find (\<lambda>r. uid r = U) (rows_of (users w)) of
                 Some r \<Rightarrow> r
               | None \<Rightarrow> \<lparr>uid = U, token = None, email = None, created_at = Some (clock w)\<rparr>)) \<or>
         ((headers req ''x-user-id'' = None \<or> headers req ''x-user-id'' = Some []) \<and>
          headers req ''authorization'' = Some (''Bearer '' @ b) \<and> b \<noteq> [] \<and>
          find (\<lambda>r. token r = Some b) (rows_of (users w)) = Some u \<and>
          CHR 0x00 \<notin> set b \<and> CHR 0x00 \<notin> set (uid u))"
  shows "fst (handler req w) =
           Inr \<lparr>status = 200,
            body = ProfileBody u
                     (find (\<lambda>p. user_id p = uid u) (rows_of (profiles w)))
                     (case find (\<lambda>p. user_id p = uid u) (rows_of (profiles w)) of
                        None \<Rightarrow> None
                      | Some p \<Rightarrow> profile_type p)\<rparr> \<and>
         last (new_events w (snd (handler req w))) = PoolQuery (SelectProfileByUserId (uid u)) \<and>
         rows_of (profiles (snd (handler req w))) = rows_of (profiles w)"
  using assms(2)
proof (elim disjE [where P = "headers req ''x-user-id'' = Some U \<and> _"] conjE)
  assume "headers req ''x-user-id'' = Some U" and "U \<noteq> []"
    and nul: "CHR 0x00 \<notin> set U"
    and fits: "U \<notin> set (map uid (rows_of (users w))) \<longrightarrow> index_row_size w U \<le> 2704"
    and u: "u = (case find (\<lambda>r. uid r = U) (rows_of (users w)) of
                 Some r \<Rightarrow> r
               | None \<Rightarrow> \<lparr>uid = U, token = None, email = None, created_at = Some (clock w)\<rparr>)"
  have dev: "or_null (headers req ''x-user-id'') = Some U"
    using \<open>headers req ''x-user-id'' = Some U\<close> \<open>U \<noteq> []\<close> by (rule or_null_Some)
  have v: "valid_text U"
    using nul by (simp add: valid_text_def)
  show ?thesis
  proof (cases "find (\<lambda>r. uid r = U) (rows_of (users w))")
    case None
    then have new: "U \<notin> set (map uid (rows_of (users w)))"
      by (auto simp add: find_None_iff)
    with fits have "index_row_size w U \<le> 2704"
      by simp
    note run = handler_no_try [OF handler_try_dev_new [OF assms(1) dev new v this]]
    show ?thesis
      using u None
      by (simp add: run new_user_def new_events_def bootstrapped_simps profile_type_of_def
          rows_of_def)
  next
    case (Some r)
    note run = handler_no_try [OF handler_try_dev_known [OF assms(1) dev Some v]]
    show ?thesis
      using u Some find_uid_Some [OF Some]
      by (simp add: run new_events_def bootstrapped_simps profile_type_of_def rows_of_def)
  qed
next
  assume raw: "headers req ''x-user-id'' = None \<or> headers req ''x-user-id'' = Some []"
    and auth: "headers req ''authorization'' = Some (''Bearer '' @ b)" and ne: "b \<noteq> []"
    and u: "find (\<lambda>r. token r = Some b) (rows_of (users w)) = Some u"
    and nul: "CHR 0x00 \<notin> set b" "CHR 0x00 \<notin> set (uid u)"
  have nodev: "or_null (headers req ''x-user-id'') = None"
    using raw by (auto simp add: or_null_def)
  have "bearer_of (or_empty (headers req ''authorization'')) = Some b"
    using auth by (simp add: or_empty_def bearer_of_prefix del: append.simps)
  note b = this ne
  have v: "valid_text b" "valid_text (uid u)"
    using nul by (simp_all add: valid_text_def)
  have "handler_try req w =
      (Inr \<lparr>status = 200,
            body = ProfileBody u
                     (find (\<lambda>p. user_id p = uid u) (rows_of (profiles w)))
                     (profile_type_of (find (\<lambda>p. user_id p = uid u) (rows_of (profiles w))))\<rparr>,
       log_event (PoolQuery (SelectProfileByUserId (uid u)))
         ((bootstrapped w)\<lparr>trace := trace w @ bootstrap_events @ [PoolQuery (SelectUserByToken b)]\<rparr>))"
    using assms(1) v(2)
    by (simp add: handler_try_bearer [OF assms(1) nodev b v(1)] u bootstrapped_simps
        respond_no_fault [where ps = "rows_of (profiles w)"])
  note run = handler_no_try [OF this]
  show ?thesis
    by (simp add: run new_events_def bootstrapped_simps log_event_simps profile_type_of_def
        rows_of_def)
qed

theorem resolved_user_gets_profile_witness:
  "faults alice_store = [] \<and>
   headers (request_of [(''authorization'', ''Bearer s3cret'')]) ''x-user-id'' = None \<and>
   headers (request_of [(''authorization'', ''Bearer s3cret'')]) ''authorization'' =
     Some (''Bearer '' @ ''s3cret'') \<and>
   find (\<lambda>r. token r = Some ''s3cret'') (rows_of (users alice_store)) = Some alice \<and>
   CHR 0x00 \<notin> set ''s3cret'' \<and> CHR 0x00 \<notin> set (uid alice) \<and>
   fst (handler (request_of [(''authorization'', ''Bearer s3cret'')]) alice_store) =
     Inr \<lparr>status = 200, body = ProfileBody alice (Some alice_profile) (Some ''musician'')\<rparr>"
proof -
  let ?req = "request_of [(''authorization'', ''Bearer s3cret'')]"
  have 1: "faults alice_store = []"
    by (simp add: alice_store_def)
  have 2: "headers ?req ''x-user-id'' = None"
    by (simp add: request_of_def)
  have 3: "headers ?req ''authorization'' = Some (''Bearer '' @ ''s3cret'')"
    by (simp add: request_of_def)
  have 4: "find (\<lambda>r. token r = Some ''s3cret'') (rows_of (users alice_store)) = Some alice"
    by (simp add: alice_store_def rows_of_def alice_def)
  have 5: "''s3cret'' \<noteq> []"
    by simp
  have 6: "CHR 0x00 \<notin> set ''s3cret''" "CHR 0x00 \<notin> set (uid alice)"
    by (simp_all add: alice_def)
  have "find (\<lambda>p. user_id p = uid alice) (rows_of (profiles alice_store)) = Some alice_profile"
    by (simp add: alice_store_def rows_of_def alice_def alice_profile_def)
  moreover have "profile_type alice_profile = Some ''musician''"
    by (simp add: alice_profile_def)
  ultimately show ?thesis
    using 1 2 3 4 6
      resolved_user_gets_profile [of alice_store ?req "[]" alice "''s3cret''", OF 1]
    by simp
qed

subsection \<open>The order of the credentials\<close>

text \<open>
  Claim C5. A request with a non-empty \<open>x-user-id\<close> header \<open>U\<close> and the \<open>authorization\<close>
  header \<open>Bearer T\<close> looks no token up, whatever the store does, and is handled exactly as
  the same request without \<open>authorization\<close> header. When no step fails, the first
  statement after the bootstrap is the lookup of the id \<open>U\<close>, and, the store accepting
  \<open>U\<close>, the answer carries a user whose id is \<open>U\<close>.
\<close>

theorem dev_header_wins_over_bearer:
  assumes "headers req ''x-user-id'' = Some U" and "U \<noteq> []"
    and "headers req ''authorization'' = Some (''Bearer '' @ T)"
  shows "(\<forall>ev\<in>set (new_events w (snd (handler req w))). \<not> is_token_lookup ev) \<and>
         PoolQuery (SelectUserByToken T) \<notin> set (new_events w (snd (handler req w))) \<and>
         handler req w = handler (req\<lparr>headers := (headers req)(''authorization'' := None)\<rparr>) w \<and>
         (faults w = [] \<longrightarrow>
            take 5 (new_events w (snd (handler req w))) =
              [PoolConnect, ClientQuery CreateUsersTable, ClientQuery CreateProfilesTable,
               ClientRelease, PoolQuery (SelectUserById U)]) \<and>
         (faults w = [] \<and> CHR 0x00 \<notin> set U \<and>
          (U \<notin> set (map uid (rows_of (users w))) \<longrightarrow> index_row_size w U \<le> 2704) \<longrightarrow>
            (\<exists>u p. fst (handler req w) =
                     Inr \<lparr>status = 200, body = ProfileBody u p (profile_type_of p)\<rparr> \<and> uid u = U))"
proof -
  note dev = or_null_Some [OF assms(1,2)]
  have q: "\<forall>ev\<in>set (new_events w (snd (handler req w))). \<not> is_token_lookup ev"
    by (rule quiet_handler [OF quiet_dev_path [OF dev]])
  have "is_token_lookup (PoolQuery (SelectUserByToken T))"
    by (simp add: is_token_lookup_def)
  with q have n: "PoolQuery (SelectUserByToken T) \<notin> set (new_events w (snd (handler req w)))"
    by blast
  have e: "handler req w = handler (req\<lparr>headers := (headers req)(''authorization'' := None)\<rparr>) w"
    by (rule handler_cong [OF handler_try_dev_ignores_authorization [OF dev]])
  have first: "take 5 (new_events w (snd (handler req w))) =
              [PoolConnect, ClientQuery CreateUsersTable, ClientQuery CreateProfilesTable,
               ClientRelease, PoolQuery (SelectUserById U)]"
    if nf: "faults w = []"
  proof (cases "valid_text U")
    case False
    note run = handler_caught [OF handler_try_dev_nul [OF nf dev False]]
    show ?thesis
      by (simp add: run new_events_def bootstrapped_simps bootstrap_events_def log_event_simps)
  next
    case v: True
    show ?thesis
    proof (cases "find (\<lambda>r. uid r = U) (rows_of (users w))")
      case (Some r)
      note run = handler_no_try [OF handler_try_dev_known [OF nf dev Some v]]
      show ?thesis
        by (simp add: run new_events_def bootstrapped_simps bootstrap_events_def)
    next
      case None
      then have new: "U \<notin> set (map uid (rows_of (users w)))"
        by (auto simp add: find_None_iff)
      show ?thesis
      proof (cases "index_row_size w U \<le> 2704")
        case True
        note run = handler_no_try [OF handler_try_dev_new [OF nf dev new v True]]
        show ?thesis
          by (simp add: run new_events_def bootstrapped_simps bootstrap_events_def)
      next
        case False
        then have "2704 < index_row_size w U"
          by simp
        note run = handler_caught [OF handler_try_dev_too_large [OF nf dev new v this]]
        show ?thesis
          by (simp add: run new_events_def bootstrapped_simps bootstrap_events_def
              log_event_simps)
      qed
    qed
  qed
  have ok: "\<exists>u p. fst (handler req w) =
                     Inr \<lparr>status = 200, body = ProfileBody u p (profile_type_of p)\<rparr> \<and> uid u = U"
    if nf: "faults w = []" and nul: "CHR 0x00 \<notin> set U"
      and fits: "U \<notin> set (map uid (rows_of (users w))) \<longrightarrow> index_row_size w U \<le> 2704"
  proof (cases "find (\<lambda>r. uid r = U) (rows_of (users w))")
    case None
    have v: "valid_text U"
      using nul by (simp add: valid_text_def)
    from None have new: "U \<notin> set (map uid (rows_of (users w)))"
      by (auto simp add: find_None_iff)
    with fits have "index_row_size w U \<le> 2704"
      by simp
    note run = handler_no_try [OF handler_try_dev_new [OF nf dev new v this]]
    show ?thesis
      by (simp add: run new_user_def)
  next
    case (Some r)
    have v: "valid_text U"
      using nul by (simp add: valid_text_def)
    note run = handler_no_try [OF handler_try_dev_known [OF nf dev Some v]]
    show ?thesis
      using find_uid_Some [OF Some]
      by (simp add: run)
  qed
  from q n e first ok show ?thesis by blast
qed

theorem dev_header_wins_over_bearer_witness:
  "headers (request_of [(''x-user-id'', ''bob''), (''authorization'', ''Bearer s3cret'')])
     ''x-user-id'' = Some ''bob'' \<and>
   headers (request_of [(''x-user-id'', ''bob''), (''authorization'', ''Bearer s3cret'')])
     ''authorization'' = Some (''Bearer '' @ ''s3cret'') \<and>
   token alice = Some ''s3cret'' \<and> faults alice_store = [] \<and>
   CHR 0x00 \<notin> set ''bob'' \<and> index_row_size alice_store ''bob'' \<le> 2704 \<and>
   PoolQuery (SelectUserByToken ''s3cret'') \<notin>
     set (new_events alice_store
       (snd (handler (request_of [(''x-user-id'', ''bob''), (''authorization'', ''Bearer s3cret'')])
          alice_store))) \<and>
   (\<exists>u p. fst (handler (request_of [(''x-user-id'', ''bob''), (''authorization'', ''Bearer s3cret'')])
              alice_store) =
            Inr \<lparr>status = 200, body = ProfileBody u p (profile_type_of p)\<rparr> \<and> uid u = ''bob'')"
proof -
  let ?req = "request_of [(''x-user-id'', ''bob''), (''authorization'', ''Bearer s3cret'')]"
  have 1: "headers ?req ''x-user-id'' = Some ''bob''"
    by (simp add: request_of_def)
  have 2: "''bob'' \<noteq> []"
    by simp
  have 3: "headers ?req ''authorization'' = Some (''Bearer '' @ ''s3cret'')"
    by (simp add: request_of_def)
  have 4: "faults alice_store = []"
    by (simp add: alice_store_def)
  have 5: "token alice = Some ''s3cret''"
    by (simp add: alice_def)
  have 6: "CHR 0x00 \<notin> set ''bob''"
    by simp
  have 7: "index_row_size alice_store ''bob'' \<le> 2704"
    by (simp add: alice_store_def plain_row_size_def)
  show ?thesis
    using 1 3 4 5 6 7 dev_header_wins_over_bearer [OF 1 2 3, of alice_store]
    by blast
qed

text \<open>
  Claim C6. For a request without a non-empty \<open>x-user-id\<close> header, an \<open>authorization\<close>
  header that does not start with \<open>Bearer \<close> changes nothing: response and world are
  those of the same request without that header, whatever the store does. When no step
  fails, the answer is status 401 with the missing-credentials body.
\<close>

theorem malformed_authorization_as_absent:
  assumes "headers req ''x-user-id'' = None \<or> headers req ''x-user-id'' = Some []"
    and "headers req ''authorization'' = Some h" and "take 7 h \<noteq> ''Bearer ''"
  shows "handler req w = handler (req\<lparr>headers := (headers req)(''authorization'' := None)\<rparr>) w \<and>
         (faults w = [] \<longrightarrow>
            fst (handler req w) =
              Inr \<lparr>status = 401,
               body = ErrorBody ''Missing auth. Provide x-user-id (dev) or Authorization: Bearer <token>.''\<rparr>)"
proof -
  let ?req' = "req\<lparr>headers := (headers req)(''authorization'' := None)\<rparr>"
  have nodev: "or_null (headers req ''x-user-id'') = None"
    using assms(1) by (auto simp add: or_null_def)
  have "bearer_of (or_empty (headers req ''authorization'')) = None"
    using assms(2) bearer_of_None [OF assms(3)] by (simp add: or_empty_def)
  then have 1: "handler_try req = await ensureSchema (\<lambda>_. return_io missing_auth)"
    using nodev by (intro handler_try_no_credentials) simp_all
  have 2: "handler_try ?req' = await ensureSchema (\<lambda>_. return_io missing_auth)"
    using nodev
    by (intro handler_try_no_credentials)
       (simp_all add: or_empty_def bearer_of_def startsWith_def)
  have "handler req w = handler ?req' w"
    by (rule handler_cong) (simp add: 1 2)
  moreover have "fst (handler req w) = Inr missing_auth" if "faults w = []"
    using that by (simp add: handler_def 1 await_def ensureSchema_no_fault return_io_def)
  ultimately show ?thesis
    by (simp add: missing_auth_def)
qed

theorem malformed_authorization_as_absent_witness:
  "headers (request_of [(''authorization'', ''bearer s3cret'')]) ''x-user-id'' = None \<and>
   headers (request_of [(''authorization'', ''bearer s3cret'')]) ''authorization'' =
     Some ''bearer s3cret'' \<and>
   take 7 ''bearer s3cret'' \<noteq> ''Bearer '' \<and> faults alice_store = [] \<and>
   handler (request_of [(''authorization'', ''bearer s3cret'')]) alice_store =
     handler ((request_of [(''authorization'', ''bearer s3cret'')])
       \<lparr>headers := (headers (request_of [(''authorization'', ''bearer s3cret'')]))
          (''authorization'' := None)\<rparr>) alice_store \<and>
   fst (handler (request_of [(''authorization'', ''bearer s3cret'')]) alice_store) =
     Inr \<lparr>status = 401,
      body = ErrorBody ''Missing auth. Provide x-user-id (dev) or Authorization: Bearer <token>.''\<rparr>"
proof -
  let ?req = "request_of [(''authorization'', ''bearer s3cret'')]"
  have 1: "headers ?req ''x-user-id'' = None"
    by (simp add: request_of_def)
  have 2: "headers ?req ''authorization'' = Some ''bearer s3cret''"
    by (simp add: request_of_def)
  have 3: "take 7 ''bearer s3cret'' \<noteq> ''Bearer ''"
    by simp
  have 4: "faults alice_store = []"
    by (simp add: alice_store_def)
  have x1: "headers ?req ''x-user-id'' = None \<or> headers ?req ''x-user-id'' = Some []"
    using 1 by (rule disjI1)
  show ?thesis
    using 1 2 3 4 malformed_authorization_as_absent [OF x1 2 3, of alice_store]
    by blast
qed

text \<open>
  Claim C10. A request without \<open>x-user-id\<close> header whose \<open>authorization\<close> header is
  exactly \<open>Bearer \<close> looks no token up, whatever the store does, and is handled exactly as
  the same request without \<open>authorization\<close> header. When no step fails, the answer
  is status 401 with the missing-credentials body, and the statements of the bootstrap are
  all that was sent.
\<close>

theorem empty_bearer_token_as_absent:
  assumes "headers req ''x-user-id'' = None" and "headers req ''authorization'' = Some ''Bearer ''"
  shows "(\<forall>ev\<in>set (new_events w (snd (handler req w))). \<not> is_token_lookup ev) \<and>
         handler req w = handler (req\<lparr>headers := (headers req)(''authorization'' := None)\<rparr>) w \<and>
         (faults w = [] \<longrightarrow>
            fst (handler req w) =
              Inr \<lparr>status = 401,
               body = ErrorBody ''Missing auth. Provide x-user-id (dev) or Authorization: Bearer <token>.''\<rparr> \<and>
            new_events w (snd (handler req w)) =
              [PoolConnect, ClientQuery CreateUsersTable, ClientQuery CreateProfilesTable,
               ClientRelease])"
proof -
  let ?req' = "req\<lparr>headers := (headers req)(''authorization'' := None)\<rparr>"
  note nodev = or_null_None [OF assms(1)]
  have b: "bearer_of (or_empty (headers req ''authorization'')) = None \<or>
      bearer_of (or_empty (headers req ''authorization'')) = Some []"
    using assms(2) by (simp add: or_empty_def bearer_of_def startsWith_def)
  note 1 = handler_try_no_credentials [OF nodev b]
  have 2: "handler_try ?req' = await ensureSchema (\<lambda>_. return_io missing_auth)"
    using nodev
    by (intro handler_try_no_credentials)
       (simp_all add: or_empty_def bearer_of_def startsWith_def)
  have q: "\<forall>ev\<in>set (new_events w (snd (handler req w))). \<not> is_token_lookup ev"
    by (rule quiet_handler [OF quiet_no_token [OF nodev b]])
  have e: "handler req w = handler ?req' w"
    by (rule handler_cong) (simp add: 1 2)
  have "handler req w = (Inr missing_auth, bootstrapped w)" if "faults w = []"
    using that by (simp add: handler_def 1 await_def ensureSchema_no_fault return_io_def)
  then have ok: "fst (handler req w) =
              Inr \<lparr>status = 401,
               body = ErrorBody ''Missing auth. Provide x-user-id (dev) or Authorization: Bearer <token>.''\<rparr> \<and>
            new_events w (snd (handler req w)) =
              [PoolConnect, ClientQuery CreateUsersTable, ClientQuery CreateProfilesTable,
               ClientRelease]" if "faults w = []"
    using that
    by (simp add: missing_auth_def new_events_def bootstrapped_simps bootstrap_events_def)
  from q e ok show ?thesis by blast
qed

theorem empty_bearer_token_as_absent_witness:
  "headers (request_of [(''authorization'', ''Bearer '')]) ''x-user-id'' = None \<and>
   headers (request_of [(''authorization'', ''Bearer '')]) ''authorization'' = Some ''Bearer '' \<and>
   faults alice_store = [] \<and>
   fst (handler (request_of [(''authorization'', ''Bearer '')]) alice_store) =
     Inr \<lparr>status = 401,
      body = ErrorBody ''Missing auth. Provide x-user-id (dev) or Authorization: Bearer <token>.''\<rparr> \<and>
   new_events alice_store (snd (handler (request_of [(''authorization'', ''Bearer '')]) alice_store)) =
     [PoolConnect, ClientQuery CreateUsersTable, ClientQuery CreateProfilesTable, ClientRelease]"
proof -
  let ?req = "request_of [(''authorization'', ''Bearer '')]"
  have 1: "headers ?req ''x-user-id'' = None"
    by (simp add: request_of_def)
  have 2: "headers ?req ''authorization'' = Some ''Bearer ''"
    by (simp add: request_of_def)
  have 3: "faults alice_store = []"
    by (simp add: alice_store_def)
  show ?thesis
    using 1 2 3 empty_bearer_token_as_absent [OF 1 2, of alice_store]
    by blast
qed

subsection \<open>The handler boundary\<close>

text \<open>
  Claim C8. The promise of the handler is never rejected: every request is answered,
  whatever the store does. Either every step of the run went through, and the answer is one
  of the two 401 bodies or a 200; or the run met an error \<open>e\<close> (a failure at the
  connection, a bootstrap statement, a lookup, the insert or the serialization of the 200
  body, or a parameter that the store refused), and the answer is status 500 with \<open>error\<close>
  \<open>Server error\<close> and \<open>details\<close> the message of \<open>e\<close>, or the name of \<open>e\<close> when the
  message is empty; \<open>e\<close> was logged on the console last. In particular a failure at any
  of the three round trips of the bootstrap gives that 500.
\<close>

theorem failures_become_server_error:
  "handler req w = (r, w') \<Longrightarrow>
     (\<exists>resp. r = Inr resp \<and>
        (((\<exists>n. faults w = replicate n None @ faults w') \<and>
          (resp = missing_auth \<or> resp = invalid_auth \<or>
           (\<exists>u p. resp = \<lparr>status = 200, body = ProfileBody u p (profile_type_of p)\<rparr>))) \<or>
         (\<exists>e. ((\<exists>n. faults w = replicate n None @ Some e # faults w') \<or>
                (\<exists>n. faults w = replicate n None @ faults w') \<and>
                (e = JsError ''error'' ''invalid byte sequence for encoding \"UTF8\": 0x00'' \<or>
                 (\<exists>k. 2704 < k \<and>
                    e = JsError ''error''
                      (''index row size '' @ show_nat k @
                       '' exceeds btree version 4 maximum 2704 for index \"users_pkey\"'')))) \<and>
              resp =
                \<lparr>status = 500,
                 body = ServerErrorBody ''Server error''
                   (if err_message e = [] then err_name e else err_message e)\<rparr> \<and>
              last (trace w') = ConsoleError e))) \<and>
     (\<forall>n e fs. n < 3 \<and> faults w = replicate n None @ Some e # fs \<longrightarrow>
        r = Inr \<lparr>status = 500,
                body = ServerErrorBody ''Server error''
                  (if err_message e = [] then err_name e else err_message e)\<rparr>)"
proof -
  assume run: "handler req w = (r, w')"
  obtain t w1 where t: "handler_try req w = (t, w1)"
    by (cases "handler_try req w")
  have acc: "accounted w (t, w1)"
    using accounted_handler_try [of w req] t by simp
  have boot: "\<forall>n e fs. n < 3 \<and> faults w = replicate n None @ Some e # fs \<longrightarrow>
        r = Inr \<lparr>status = 500,
                body = ServerErrorBody ''Server error''
                  (if err_message e = [] then err_name e else err_message e)\<rparr>"
  proof (intro allI impI, elim conjE)
    fix n e fs
    assume "n < 3" and "faults w = replicate n None @ Some e # fs"
    then have "fst (handler req w) = Inr (server_error e)"
      by (rule bootstrap_failure)
    with run show "r = Inr \<lparr>status = 500,
                body = ServerErrorBody ''Server error''
                  (if err_message e = [] then err_name e else err_message e)\<rparr>"
      by (simp add: server_error_def details_of_def)
  qed
  have main: "\<exists>resp. r = Inr resp \<and>
        (((\<exists>n. faults w = replicate n None @ faults w') \<and>
          (resp = missing_auth \<or> resp = invalid_auth \<or>
           (\<exists>u p. resp = \<lparr>status = 200, body = ProfileBody u p (profile_type_of p)\<rparr>))) \<or>
         (\<exists>e. ((\<exists>n. faults w = replicate n None @ Some e # faults w') \<or>
                (\<exists>n. faults w = replicate n None @ faults w') \<and>
                (e = JsError ''error'' ''invalid byte sequence for encoding \"UTF8\": 0x00'' \<or>
                 (\<exists>k. 2704 < k \<and>
                    e = JsError ''error''
                      (''index row size '' @ show_nat k @
                       '' exceeds btree version 4 maximum 2704 for index \"users_pkey\"'')))) \<and>
              resp =
                \<lparr>status = 500,
                 body = ServerErrorBody ''Server error''
                   (if err_message e = [] then err_name e else err_message e)\<rparr> \<and>
              last (trace w') = ConsoleError e))"
  proof (cases t)
    case (Inr x)
    with run t have eq: "r = Inr x" "w' = w1"
      using handler_no_try [of req w x w1] by simp_all
    from acc Inr eq have "\<exists>n. faults w = replicate n None @ faults w'"
      by (simp add: accounted_def passed_def)
    moreover from handler_try_Inr [of req w x w1] t Inr
    have "x = missing_auth \<or> x = invalid_auth \<or>
       (\<exists>u p. x = \<lparr>status = 200, body = ProfileBody u p (profile_type_of p)\<rparr>)"
      by simp
    ultimately have "(\<exists>n. faults w = replicate n None @ faults w') \<and>
          (x = missing_auth \<or> x = invalid_auth \<or>
           (\<exists>u p. x = \<lparr>status = 200, body = ProfileBody u p (profile_type_of p)\<rparr>))"
      by (rule conjI)
    with eq(1) show ?thesis
      by blast
  next
    case (Inl e)
    with run t have eq: "r = Inr (server_error e)" "w' = log_event (ConsoleError e) w1"
      using handler_caught [of req w e w1] by simp_all
    have fw: "faults w' = faults w1"
      using eq(2) by (simp add: log_event_simps)
    from acc Inl have "failed w e w1 \<or> (refusal e \<and> passed w w1)"
      by (simp add: accounted_def)
    then have cause: "(\<exists>n. faults w = replicate n None @ Some e # faults w') \<or>
                (\<exists>n. faults w = replicate n None @ faults w') \<and>
                (e = JsError ''error'' ''invalid byte sequence for encoding \"UTF8\": 0x00'' \<or>
                 (\<exists>k. 2704 < k \<and>
                    e = JsError ''error''
                      (''index row size '' @ show_nat k @
                       '' exceeds btree version 4 maximum 2704 for index \"users_pkey\"'')))"
      unfolding failed_def passed_def refusal_def invalid_byte_sequence_def
        index_row_too_large_def fw
      by blast
    have body: "server_error e =
                \<lparr>status = 500,
                 body = ServerErrorBody ''Server error''
                   (if err_message e = [] then err_name e else err_message e)\<rparr>"
      by (simp add: server_error_def details_of_def)
    have logged: "last (trace w') = ConsoleError e"
      using eq(2) by (simp add: log_event_simps)
    from cause body logged
    have "\<exists>e'. ((\<exists>n. faults w = replicate n None @ Some e' # faults w') \<or>
                (\<exists>n. faults w = replicate n None @ faults w') \<and>
                (e' = JsError ''error'' ''invalid byte sequence for encoding \"UTF8\": 0x00'' \<or>
                 (\<exists>k. 2704 < k \<and>
                    e' = JsError ''error''
                      (''index row size '' @ show_nat k @
                       '' exceeds btree version 4 maximum 2704 for index \"users_pkey\"'')))) \<and>
              server_error e =
                \<lparr>status = 500,
                 body = ServerErrorBody ''Server error''
                   (if err_message e' = [] then err_name e' else err_message e')\<rparr> \<and>
              last (trace w') = ConsoleError e'"
      by (intro exI [of _ e] conjI)
    with eq(1) show ?thesis
      by blast
  qed
  from main boot show ?thesis
    by (rule conjI)
qed

lemmas run_defs =
  handler_def handler_try_def await_def ensureSchema_def try_finally_def
  pool_connect_def client_query_def client_release_def round_trip_def fallible_def log_event_def
  create_users_table_def create_profiles_table_def alice_store_def
  request_of_def or_null_def or_empty_def bearer_of_def startsWith_def
  getUserById_def getUserByToken_def getProfileForUser_def pool_query_def
  select_user_by_id_def select_user_by_token_def select_profile_by_user_id_def insert_user_def
  valid_text_def return_io_def first_or_null_def alice_def alice_profile_def server_error_def
  details_of_def res_json_def holds_rows_def respond_def profile_type_of_def

lemma flaky_run:
  "handler (request_of [(''x-user-id'', ''bob'')]) flaky_store =
     (Inr \<lparr>status = 500, body = ServerErrorBody ''Server error'' ''Connection terminated''\<rparr>,
      alice_store\<lparr>trace :=
        [PoolConnect, ClientQuery CreateUsersTable, ClientQuery CreateProfilesTable, ClientRelease,
         PoolQuery (SelectUserById ''bob''), PoolQuery (InsertUser ''bob''),
         ConsoleError (JsError ''Error'' ''Connection terminated'')]\<rparr>)"
  by (simp add: run_defs flaky_store_def)

lemma unserializable_run:
  "handler (request_of [(''authorization'', ''Bearer s3cret'')]) unserializable_store =
     (Inr \<lparr>status = 500,
           body = ServerErrorBody ''Server error'' ''Do not know how to serialize a BigInt''\<rparr>,
      alice_store\<lparr>trace :=
        [PoolConnect, ClientQuery CreateUsersTable, ClientQuery CreateProfilesTable, ClientRelease,
         PoolQuery (SelectUserByToken ''s3cret''), PoolQuery (SelectProfileByUserId ''alice''),
         ConsoleError (JsError ''TypeError'' ''Do not know how to serialize a BigInt'')]\<rparr>)"
  by (simp add: run_defs unserializable_store_def)

theorem failures_become_server_error_witness:
  "handler (request_of [(''x-user-id'', ''bob'')]) flaky_store =
     (Inr \<lparr>status = 500, body = ServerErrorBody ''Server error'' ''Connection terminated''\<rparr>,
      alice_store\<lparr>trace :=
        [PoolConnect, ClientQuery CreateUsersTable, ClientQuery CreateProfilesTable, ClientRelease,
         PoolQuery (SelectUserById ''bob''), PoolQuery (InsertUser ''bob''),
         ConsoleError (JsError ''Error'' ''Connection terminated'')]\<rparr>) \<and>
   handler (request_of [(''authorization'', ''Bearer s3cret'')]) unserializable_store =
     (Inr \<lparr>status = 500,
           body = ServerErrorBody ''Server error'' ''Do not know how to serialize a BigInt''\<rparr>,
      alice_store\<lparr>trace :=
        [PoolConnect, ClientQuery CreateUsersTable, ClientQuery CreateProfilesTable, ClientRelease,
         PoolQuery (SelectUserByToken ''s3cret''), PoolQuery (SelectProfileByUserId ''alice''),
         ConsoleError (JsError ''TypeError'' ''Do not know how to serialize a BigInt'')]\<rparr>) \<and>
   (0::nat) < 3 \<and>
   faults refusing_store = replicate 0 None @ Some (JsError ''AggregateError'' []) # [] \<and>
   fst (handler (request_of [(''x-user-id'', ''bob'')]) refusing_store) =
     Inr \<lparr>status = 500, body = ServerErrorBody ''Server error'' ''AggregateError''\<rparr>"
proof -
  let ?req = "request_of [(''x-user-id'', ''bob'')]"
  have run: "handler ?req refusing_store =
      (fst (handler ?req refusing_store), snd (handler ?req refusing_store))"
    by simp
  have plan: "(0::nat) < 3 \<and>
      faults refusing_store = replicate 0 None @ Some (JsError ''AggregateError'' []) # []"
    by (simp add: refusing_store_def alice_store_def)
  from failures_become_server_error [OF run, THEN conjunct2, rule_format, OF plan]
  have "fst (handler ?req refusing_store) =
     Inr \<lparr>status = 500, body = ServerErrorBody ''Server error'' ''AggregateError''\<rparr>"
    by simp
  with flaky_run unserializable_run plan show ?thesis
    by blast
qed

end
